theory Spec2Isabelle
  imports Complex_Main
begin

section \<open>Deformable attention over one-dimensional sequences\<close>

text \<open>
  A shallow embedding of \<^verbatim>\<open>deformable_attention/deformable_attention_1d.py\<close>.
  Tensors are nested lists, outermost axis first; their entries are real numbers, the
  idealisation of the floating-point numbers of the tensor library. Python integers are
  \<^typ>\<open>int\<close> (\<^verbatim>\<open>//\<close> and \<^verbatim>\<open>%\<close> are \<open>div\<close> and \<open>mod\<close>: both round
  towards minus infinity). An exception is a value \<open>Inl e\<close> of a sum type.
\<close>

type_synonym t1 = "real list"
type_synonym t2 = "real list list"
type_synonym t3 = "real list list list"
type_synonym t4 = "real list list list list"

datatype error = AssertionError | ZeroDivisionError | RuntimeError

definition bindE :: "error + 'a \<Rightarrow> ('a \<Rightarrow> error + 'b) \<Rightarrow> error + 'b" where
  "bindE r f = (case r of Inl e \<Rightarrow> Inl e | Inr v \<Rightarrow> f v)"

subsection \<open>Helper functions\<close>

text \<open>\<^verbatim>\<open>default(val, d)\<close>: \<^verbatim>\<open>val if exists(val) else d\<close>.\<close>

definition default :: "'a option \<Rightarrow> 'a \<Rightarrow> 'a" where
  "default val d = (case val of Some v \<Rightarrow> v | None \<Rightarrow> d)"

text \<open>\<^verbatim>\<open>divisible_by(numer, denom)\<close>: \<^verbatim>\<open>(numer % denom) == 0\<close>; Python raises
  ZeroDivisionError on a zero denominator.\<close>

definition divisible_by :: "int \<Rightarrow> int \<Rightarrow> error + bool" where
  "divisible_by numer denom =
     (if denom = 0 then Inl ZeroDivisionError else Inr (numer mod denom = 0))"

subsection \<open>Tensor helpers\<close>

text \<open>\<^verbatim>\<open>torch.arange(n)\<close>: the positions \<open>0, \<dots>, n - 1\<close>.\<close>

definition arange :: "nat \<Rightarrow> t1" where
  "arange n = map real [0..<n]"

text \<open>\<^verbatim>\<open>normalize_grid\<close>, on a tensor of rank one: \<^verbatim>\<open>n = arange.shape[-1]\<close> and
  \<^verbatim>\<open>2.0 * arange / max(n - 1, 1) - 1.0\<close>. On a tensor of rank two (the deformed grid)
  the last axis is the length of every row, so each row is normalised in the same way.\<close>

definition normalize_grid :: "t1 \<Rightarrow> t1" where
  "normalize_grid arange' =
     (let n = int (length arange')
      in map (\<lambda>a. 2.0 * a / of_int (max (n - 1) 1) - 1.0) arange')"

definition normalize_grid2 :: "t2 \<Rightarrow> t2" where
  "normalize_grid2 vgrid = map normalize_grid vgrid"

subsection \<open>Continuous positional bias: the signed logarithm of a distance\<close>

text \<open>\<^verbatim>\<open>torch.sign(pos) * torch.log(pos.abs() + 1)\<close> of \<^verbatim>\<open>CPB.forward\<close>, for one
  entry \<open>pos\<close> of the tensor of relative positions.\<close>

definition signed_log :: "real \<Rightarrow> real" where
  "signed_log pos = sgn pos * ln (\<bar>pos\<bar> + 1)"

subsection \<open>Construction\<close>

text \<open>The keyword arguments of \<^verbatim>\<open>DeformableAttention1D.__init__\<close>.\<close>

record config =
  dim :: int
  dim_head :: int
  heads :: int
  dropout :: real
  downsample_factor :: int
  offset_scale :: real
  offset_groups :: "int option"
  offset_kernel_size :: int

text \<open>The two assertions of the constructor, in the order of the source. The first
  is \<^verbatim>\<open>assert divisible_by(offset_kernel_size - downsample_factor, 2)\<close>, then
  \<^verbatim>\<open>offset_groups = default(offset_groups, heads)\<close>, then
  \<^verbatim>\<open>assert divisible_by(heads, offset_groups)\<close>. The result is the value of
  \<^verbatim>\<open>offset_groups\<close> the module keeps.\<close>

definition check_config :: "config \<Rightarrow> error + int" where
  "check_config c =
     bindE (divisible_by (offset_kernel_size c - downsample_factor c) 2) (\<lambda>ok1.
       if \<not> ok1 then Inl AssertionError
       else
         let og = default (offset_groups c) (heads c)
         in bindE (divisible_by (heads c) og) (\<lambda>ok2.
              if \<not> ok2 then Inl AssertionError else Inr og))"

subsection \<open>Layers of the tensor library\<close>

text \<open>
  The layers are those of the tensor library, modelled from its documentation. A layer
  is a record of its hyper-parameters and its learned arrays.
\<close>

definition dot :: "t1 \<Rightarrow> t1 \<Rightarrow> real" where
  "dot u v = sum_list (map2 (*) u v)"

text \<open>\<^verbatim>\<open>nn.GELU\<close>: \<open>x * \<Phi>(x)\<close> with \<open>\<Phi>\<close> the distribution function of the standard
  normal law, \<open>(1 + erf (x / sqrt 2)) / 2\<close>; the error function is given by its power
  series.\<close>

definition erf :: "real \<Rightarrow> real" where
  "erf x = 2 / sqrt pi * (\<Sum>n. (- 1) ^ n * x ^ (2 * n + 1) / (fact n * real (2 * n + 1)))"

definition gelu :: "real \<Rightarrow> real" where
  "gelu x = x * ((1 + erf (x / sqrt 2)) / 2)"

text \<open>\<^verbatim>\<open>nn.Linear(in_features, out_features, bias)\<close>: the weight has \<open>out_features\<close>
  rows of \<open>in_features\<close> entries; the layer acts on the last axis and raises when that
  axis has another size.\<close>

record linear =
  in_features :: int
  out_features :: int
  lin_weight :: t2
  lin_bias :: "t1 option"

definition linear_vec :: "linear \<Rightarrow> t1 \<Rightarrow> t1" where
  "linear_vec l v =
     (case lin_bias l of
        None \<Rightarrow> map (\<lambda>w. dot w v) (lin_weight l)
      | Some b \<Rightarrow> map2 (\<lambda>w bi. dot w v + bi) (lin_weight l) b)"

definition linear_forward :: "linear \<Rightarrow> t3 \<Rightarrow> error + t3" where
  "linear_forward l x =
     (if list_all (list_all (\<lambda>v. int (length v) = in_features l)) x
      then Inr (map (map (linear_vec l)) x)
      else Inl RuntimeError)"

text \<open>\<^verbatim>\<open>nn.Conv1d(in_channels, out_channels, kernel_size, groups, stride, padding)\<close>
  on an input of shape (batch, channels, length). The weight has shape
  (out_channels, in_channels / groups, kernel_size). The library raises when the input
  does not have \<open>in_channels\<close> channels, and when the padded length is smaller than the
  kernel; the output length is \<open>(L + 2 * padding - kernel_size) div stride + 1\<close>. Layers
  with a non-positive size or stride or a negative padding are rejected as well.\<close>

record conv1d =
  in_channels :: int
  out_channels :: int
  kernel_size :: int
  groups :: int
  stride :: int
  padding :: int
  conv_weight :: t3
  conv_bias :: "t1 option"

definition pad1d :: "nat \<Rightarrow> t1 \<Rightarrow> t1" where
  "pad1d p xs = replicate p 0 @ xs @ replicate p 0"

definition conv_out_len :: "conv1d \<Rightarrow> nat \<Rightarrow> nat" where
  "conv_out_len c L = nat ((int L + 2 * padding c - kernel_size c) div stride c + 1)"

definition conv1d_channel :: "conv1d \<Rightarrow> t2 \<Rightarrow> nat \<Rightarrow> t1" where
  "conv1d_channel c xb oc =
     (let cin_g = nat (in_channels c div groups c);
          cout_g = nat (out_channels c div groups c);
          g = oc div cout_g;
          rows = map (pad1d (nat (padding c))) (take cin_g (drop (g * cin_g) xb));
          b = (case conv_bias c of None \<Rightarrow> 0 | Some bs \<Rightarrow> bs ! oc)
      in map (\<lambda>t. b + sum_list (map2 (\<lambda>w row.
                  dot w (take (nat (kernel_size c)) (drop (t * nat (stride c)) row)))
                (conv_weight c ! oc) rows))
           [0..<conv_out_len c (length (hd xb))])"

definition conv1d_forward :: "conv1d \<Rightarrow> t3 \<Rightarrow> error + t3" where
  "conv1d_forward c x =
     (if in_channels c \<le> 0 \<or> out_channels c \<le> 0 \<or> groups c \<le> 0 \<or> kernel_size c \<le> 0
         \<or> stride c \<le> 0 \<or> padding c < 0
      then Inl RuntimeError
      else if \<not> list_all (\<lambda>xb. int (length xb) = in_channels c) x
      then Inl RuntimeError
      else if \<not> list_all (list_all (\<lambda>row. kernel_size c \<le> int (length row) + 2 * padding c)) x
      then Inl RuntimeError
      else Inr (map (\<lambda>xb. map (conv1d_channel c xb) [0..<nat (out_channels c)]) x))"

text \<open>\<^verbatim>\<open>F.grid_sample(input, grid, mode = 'bilinear', padding_mode = 'zeros',
  align_corners = False)\<close> on an input of shape (N, C, H_in, W_in) and a grid of shape
  (N, H_out, W_out, 2): the entry 0 of a grid point is its \<open>x\<close> coordinate, along the
  last axis of the input (of size W_in), the entry 1 its \<open>y\<close> coordinate, along the axis
  of size H_in. A coordinate \<open>-1\<close> is the outer edge of the first sample and \<open>+1\<close> the
  outer edge of the last one; a neighbour outside the input counts as zero.\<close>

definition unnormalize :: "real \<Rightarrow> nat \<Rightarrow> real" where
  "unnormalize coord n = ((coord + 1) * real n - 1) / 2"

definition within_bounds_2d :: "int \<Rightarrow> int \<Rightarrow> int \<Rightarrow> int \<Rightarrow> bool" where
  "within_bounds_2d h w H W = (0 \<le> h \<and> h < H \<and> 0 \<le> w \<and> w < W)"

definition pixel :: "t2 \<Rightarrow> int \<Rightarrow> int \<Rightarrow> real" where
  "pixel img h w =
     (if within_bounds_2d h w (int (length img)) (int (length (hd img)))
      then img ! nat h ! nat w else 0)"

definition bilinear_zeros :: "t2 \<Rightarrow> real \<Rightarrow> real \<Rightarrow> real" where
  "bilinear_zeros img x y =
     (let ix = unnormalize x (length (hd img));
          iy = unnormalize y (length img);
          ix_nw = \<lfloor>ix\<rfloor>; iy_nw = \<lfloor>iy\<rfloor>;
          ix_ne = ix_nw + 1; iy_ne = iy_nw;
          ix_sw = ix_nw; iy_sw = iy_nw + 1;
          ix_se = ix_nw + 1; iy_se = iy_nw + 1;
          nw = (of_int ix_se - ix) * (of_int iy_se - iy);
          ne = (ix - of_int ix_sw) * (of_int iy_sw - iy);
          sw = (of_int ix_ne - ix) * (iy - of_int iy_ne);
          se = (ix - of_int ix_nw) * (iy - of_int iy_nw)
      in pixel img iy_nw ix_nw * nw + pixel img iy_ne ix_ne * ne
           + pixel img iy_sw ix_sw * sw + pixel img iy_se ix_se * se)"

definition grid_sample :: "t4 \<Rightarrow> t4 \<Rightarrow> t4" where
  "grid_sample input grid =
     map2 (\<lambda>inp g. map (\<lambda>img. map (map (\<lambda>xy. bilinear_zeros img (xy ! 0) (xy ! 1))) g) inp)
       input grid"

text \<open>\<^verbatim>\<open>grid_sample_1d\<close>: the grid gets two axes of size one and is padded on the
  right of its last axis with a zero (\<^verbatim>\<open>F.pad(grid, (0, 1), value = 0.)\<close>), the features
  get a last axis of size one, and the last axis of the result is dropped again.\<close>

definition grid_sample_1d :: "t3 \<Rightarrow> t2 \<Rightarrow> t3" where
  "grid_sample_1d feats grid =
     (let grid' = map (map (\<lambda>g. [[g] @ [0]])) grid;
          feats' = map (map (map (\<lambda>f. [f]))) feats;
          out = grid_sample feats' grid'
      in map (map (map hd)) out)"

subsection \<open>Rearrangements of axes\<close>

text \<open>The patterns of \<^verbatim>\<open>einops.rearrange\<close> the module uses, each written out on
  nested lists. The sizes the pattern leaves open are those of the tensor's shape.\<close>

text \<open>\<^verbatim>\<open>'b n d -> b d n'\<close> on one element of the batch.\<close>

definition transpose2 :: "t2 \<Rightarrow> t2" where
  "transpose2 m = map (\<lambda>j. map (\<lambda>row. row ! j) m) [0..<length (hd m)]"

text \<open>\<^verbatim>\<open>'b n (g d) -> (b g) d n'\<close> with \<open>g\<close> given, on a tensor whose last axis has size
  \<open>c\<close>; the library raises when \<open>g\<close> does not divide \<open>c\<close>.\<close>

definition group_feats :: "nat \<Rightarrow> nat \<Rightarrow> t3 \<Rightarrow> error + t3" where
  "group_feats g c q =
     (if g = 0 \<or> c mod g \<noteq> 0 then Inl RuntimeError
      else Inr (concat (map (\<lambda>qb.
             map (\<lambda>gi. map (\<lambda>di. map (\<lambda>qn. qn ! (gi * (c div g) + di)) qb) [0..<c div g])
               [0..<g]) q)))"

text \<open>\<^verbatim>\<open>'(b g) d n -> b n (g d)'\<close> with \<open>b\<close> given, on a tensor of shape (b * g, d, n).\<close>

definition ungroup_feats :: "nat \<Rightarrow> nat \<Rightarrow> nat \<Rightarrow> nat \<Rightarrow> t3 \<Rightarrow> t3" where
  "ungroup_feats b g d n kv =
     map (\<lambda>bi. map (\<lambda>ni. concat (map (\<lambda>gi. map (\<lambda>di. kv ! (bi * g + gi) ! di ! ni) [0..<d])
                                   [0..<g])) [0..<n]) [0..<b]"

text \<open>\<^verbatim>\<open>'b n (h d) -> b h n d'\<close> with \<open>h\<close> given, \<open>d\<close> the size of a head.\<close>

definition split_heads :: "nat \<Rightarrow> nat \<Rightarrow> t3 \<Rightarrow> t4" where
  "split_heads h d t =
     map (\<lambda>tb. map (\<lambda>hi. map (\<lambda>row. take d (drop (hi * d) row)) tb) [0..<h]) t"

text \<open>\<^verbatim>\<open>'b h n d -> b n (h d)'\<close> on a tensor of shape (b, h, n, d).\<close>

definition merge_heads :: "nat \<Rightarrow> t4 \<Rightarrow> t3" where
  "merge_heads n t = map (\<lambda>tb. map (\<lambda>ni. concat (map (\<lambda>th. th ! ni) tb)) [0..<n]) t"

text \<open>\<^verbatim>\<open>'(b g) i j o -> b (g o) i j'\<close> with \<open>g\<close> given, on a tensor of shape
  (b * g, i, j, o).\<close>

definition regroup_bias :: "nat \<Rightarrow> nat \<Rightarrow> t4 \<Rightarrow> t4" where
  "regroup_bias g o' bias =
     map (\<lambda>bi. concat (map (\<lambda>gi. map (\<lambda>oi. map (map (\<lambda>v. v ! oi)) (bias ! (bi * g + gi)))
                                [0..<o']) [0..<g]))
       [0..<length bias div g]"

subsection \<open>The bias network\<close>

text \<open>The entries of \<^verbatim>\<open>self.mlp\<close>: a linear layer followed by \<^verbatim>\<open>nn.ReLU\<close>, or a
  linear layer alone (the last one).\<close>

datatype mlp_layer = LinearReLU linear | LinearOnly linear

record cpb =
  cpb_heads :: int
  cpb_offset_groups :: int
  mlp :: "mlp_layer list"

definition relu :: "real \<Rightarrow> real" where
  "relu v = max 0 v"

fun layer_forward :: "mlp_layer \<Rightarrow> t1 \<Rightarrow> t1" where
  "layer_forward (LinearReLU l) v = map relu (linear_vec l v)"
| "layer_forward (LinearOnly l) v = linear_vec l v"

text \<open>\<^verbatim>\<open>for layer in self.mlp: bias = layer(bias)\<close>, on one entry of the last axis.\<close>

definition mlp_forward :: "mlp_layer list \<Rightarrow> t1 \<Rightarrow> t1" where
  "mlp_forward layers v = fold layer_forward layers v"

text \<open>\<^verbatim>\<open>CPB.forward(grid_q, grid_kv)\<close>: \<open>grid_q\<close> has shape (n), \<open>grid_kv\<close> has shape
  (b * g, m); the entry \<open>(bg, i, j)\<close> of \<^verbatim>\<open>pos\<close> is \<^verbatim>\<open>grid_q[i] - grid_kv[bg][j]\<close>,
  with a last axis of size one.\<close>

definition cpb_forward :: "cpb \<Rightarrow> t1 \<Rightarrow> t2 \<Rightarrow> t4" where
  "cpb_forward p grid_q grid_kv =
     (let pos = map (\<lambda>kv. map (\<lambda>qi. map (\<lambda>kj. [qi - kj]) kv) grid_q) grid_kv;
          bias = map (map (map (map signed_log))) pos;
          bias = map (map (map (mlp_forward (mlp p)))) bias
      in regroup_bias (nat (cpb_offset_groups p))
           (nat (cpb_heads p div cpb_offset_groups p)) bias)"

subsection \<open>The module\<close>

text \<open>The attributes \<^verbatim>\<open>DeformableAttention1D.__init__\<close> sets. \<open>to_offsets_conv\<close> and
  \<open>to_offsets_proj\<close> are the two convolutions of \<^verbatim>\<open>self.to_offsets\<close>, and
  \<open>to_offsets_scale\<close> is the factor of its last stage, \<^verbatim>\<open>Scale(offset_scale)\<close>.\<close>

record module =
  self_scale :: real
  self_heads :: int
  self_offset_groups :: int
  self_downsample_factor :: int
  to_offsets_conv :: conv1d
  to_offsets_proj :: conv1d
  to_offsets_scale :: real
  rel_pos_bias :: cpb
  self_dropout :: real
  to_q :: linear
  to_kv :: linear
  to_out :: linear

text \<open>The initial values of the learned arrays, drawn by the library when the layers
  are made.\<close>

record params =
  offsets_conv_weight :: t3
  offsets_conv_bias :: t1
  offsets_proj_weight :: t3
  cpb_in_weight :: t2
  cpb_in_bias :: t1
  cpb_hidden_weight :: t2
  cpb_hidden_bias :: t1
  cpb_out_weight :: t2
  cpb_out_bias :: t1
  to_q_weight :: t2
  to_kv_weight :: t2
  to_out_weight :: t2
  to_out_bias :: t1

text \<open>\<^verbatim>\<open>CPB(dim, heads, offset_groups, depth)\<close> with \<open>depth = 2\<close>, as the module calls
  it: \<open>Linear(1, dim)\<close> and \<open>Linear(dim, dim)\<close>, each followed by ReLU, then
  \<open>Linear(dim, heads // offset_groups)\<close>.\<close>

definition cpb_init :: "int \<Rightarrow> int \<Rightarrow> int \<Rightarrow> params \<Rightarrow> cpb" where
  "cpb_init d h og w =
     \<lparr>cpb_heads = h, cpb_offset_groups = og,
      mlp = [LinearReLU \<lparr>in_features = 1, out_features = d,
                         lin_weight = cpb_in_weight w, lin_bias = Some (cpb_in_bias w)\<rparr>,
             LinearReLU \<lparr>in_features = d, out_features = d,
                         lin_weight = cpb_hidden_weight w, lin_bias = Some (cpb_hidden_bias w)\<rparr>,
             LinearOnly \<lparr>in_features = d, out_features = h div og,
                         lin_weight = cpb_out_weight w, lin_bias = Some (cpb_out_bias w)\<rparr>]\<rparr>"

text \<open>\<^verbatim>\<open>DeformableAttention1D.__init__\<close>: the two assertions, then the attributes and
  the layers. \<^verbatim>\<open>dim_head ** -0.5\<close> raises ZeroDivisionError for \<open>dim_head = 0\<close>. What
  the constructors of the layers check themselves is not part of the model.\<close>

definition init :: "config \<Rightarrow> params \<Rightarrow> error + module" where
  "init c w =
     bindE (check_config c) (\<lambda>og.
       let inner_dim = dim_head c * heads c;
           offset_dims = inner_dim div og
       in if dim_head c = 0 then Inl ZeroDivisionError
          else Inr
           \<lparr>self_scale = real_of_int (dim_head c) powr (- 0.5),
            self_heads = heads c,
            self_offset_groups = og,
            self_downsample_factor = downsample_factor c,
            to_offsets_conv =
              \<lparr>in_channels = offset_dims, out_channels = offset_dims,
               kernel_size = offset_kernel_size c, groups = offset_dims,
               stride = downsample_factor c,
               padding = (offset_kernel_size c - downsample_factor c) div 2,
               conv_weight = offsets_conv_weight w, conv_bias = Some (offsets_conv_bias w)\<rparr>,
            to_offsets_proj =
              \<lparr>in_channels = offset_dims, out_channels = 1, kernel_size = 1, groups = 1,
               stride = 1, padding = 0,
               conv_weight = offsets_proj_weight w, conv_bias = None\<rparr>,
            to_offsets_scale = offset_scale c,
            rel_pos_bias = cpb_init (dim c div 4) (heads c) og w,
            self_dropout = dropout c,
            to_q = \<lparr>in_features = dim c, out_features = inner_dim,
                    lin_weight = to_q_weight w, lin_bias = None\<rparr>,
            to_kv = \<lparr>in_features = dim c, out_features = inner_dim * 2,
                     lin_weight = to_kv_weight w, lin_bias = None\<rparr>,
            to_out = \<lparr>in_features = inner_dim, out_features = dim c,
                      lin_weight = to_out_weight w, lin_bias = Some (to_out_bias w)\<rparr>\<rparr>)"

text \<open>\<^verbatim>\<open>self.to_offsets\<close>, a sequence of seven stages: \<^verbatim>\<open>Rearrange('b n d -> b d n')\<close>,
  the depthwise convolution, GELU, the convolution to one channel,
  \<^verbatim>\<open>Rearrange('b 1 n -> b n')\<close>, \<^verbatim>\<open>nn.Tanh\<close> and \<^verbatim>\<open>Scale\<close>.\<close>

definition to_offsets :: "module \<Rightarrow> t3 \<Rightarrow> error + t2" where
  "to_offsets m x =
     (let x1 = map transpose2 x
      in bindE (conv1d_forward (to_offsets_conv m) x1) (\<lambda>x2.
           let x3 = map (map (map gelu)) x2
           in bindE (conv1d_forward (to_offsets_proj m) x3) (\<lambda>x4.
                let x5 = map hd x4;
                    x6 = map (map tanh) x5
                in Inr (map (map (\<lambda>v. v * to_offsets_scale m)) x6))))"

subsection \<open>Attention\<close>

text \<open>\<^verbatim>\<open>sim.amax(dim = -1, keepdim = True)\<close> and \<^verbatim>\<open>sim.softmax(dim = -1)\<close> on one row
  of the last axis. The row is never empty where the module calls them.\<close>

definition amax :: "t1 \<Rightarrow> real" where
  "amax row = Max (set row)"

definition softmax :: "t1 \<Rightarrow> t1" where
  "softmax row = (let es = map exp row in map (\<lambda>e. e / sum_list es) es)"

text \<open>From the biased similarities to the attention weights:
  \<^verbatim>\<open>sim = sim - sim.amax(dim = -1, keepdim = True).detach()\<close>,
  \<^verbatim>\<open>attn = sim.softmax(dim = -1)\<close> and \<^verbatim>\<open>attn = self.dropout(attn)\<close>, the dropout
  being the identity when it is disabled (probability zero, or evaluation mode).\<close>

definition attention_weights :: "t4 \<Rightarrow> t4" where
  "attention_weights sim =
     map (map (map (\<lambda>row. softmax (map (\<lambda>s. s - amax row) row)))) sim"

text \<open>\<^verbatim>\<open>einsum('b h i d, b h j d -> b h i j', q, k)\<close>.\<close>

definition similarity :: "t4 \<Rightarrow> t4 \<Rightarrow> t4" where
  "similarity q k =
     map2 (\<lambda>qb kb. map2 (\<lambda>qh kh. map (\<lambda>qi. map (\<lambda>kj. dot qi kj) kh) qh) qb kb) q k"

text \<open>\<^verbatim>\<open>einsum('b h i j, b h j d -> b h i d', attn, v)\<close>, \<open>d\<close> the size of a head.\<close>

definition aggregate :: "nat \<Rightarrow> t4 \<Rightarrow> t4 \<Rightarrow> t4" where
  "aggregate d attn v =
     map2 (\<lambda>ab vb. map2 (\<lambda>ah vh.
             map (\<lambda>arow. map (\<lambda>di. dot arow (map (\<lambda>vj. vj ! di) vh)) [0..<d]) ah) ab vb)
       attn v"

text \<open>Entrywise sum of two tensors of rank four of the same shape.\<close>

definition add4 :: "t4 \<Rightarrow> t4 \<Rightarrow> t4" where
  "add4 s t = map2 (map2 (map2 (map2 (+)))) s t"

subsection \<open>The forward call\<close>

text \<open>\<^verbatim>\<open>DeformableAttention1D.forward(x, return_vgrid)\<close> with dropout disabled, in two
  parts: \<open>forward_attn\<close> runs the source up to the attention weights and returns them
  with the values and the deformed grid, \<open>forward\<close> aggregates, merges the heads and
  projects. The batch and the sequence are taken to be non-empty.\<close>

definition forward_attn :: "module \<Rightarrow> t3 \<Rightarrow> error + (t4 \<times> t4 \<times> t2)" where
  "forward_attn m x =
     (let heads' = nat (self_heads m); b = length x; n = length (hd x);
          g = nat (self_offset_groups m);
          inner = nat (out_features (to_q m))
      in bindE (linear_forward (to_q m) x) (\<lambda>q.
         bindE (group_feats g inner q) (\<lambda>grouped_feats.
         bindE (to_offsets m grouped_feats) (\<lambda>offsets.
           let grid = arange (length (hd offsets));
               vgrid = map (\<lambda>row. map2 (+) grid row) offsets;
               vgrid_scaled = normalize_grid2 vgrid;
               kv_feats = grid_sample_1d grouped_feats vgrid_scaled;
               kv_feats = ungroup_feats b g (inner div g) (length (hd offsets)) kv_feats
           in bindE (linear_forward (to_kv m) kv_feats) (\<lambda>kv.
                let k = map (map (\<lambda>row. take ((length row + 1) div 2) row)) kv;
                    v = map (map (\<lambda>row. drop ((length row + 1) div 2) row)) kv;
                    q = map (map (map (\<lambda>e. e * self_scale m))) q;
                    q = split_heads heads' (inner div heads') q;
                    k = split_heads heads' (inner div heads') k;
                    v = split_heads heads' (inner div heads') v;
                    sim = similarity q k;
                    seq_range = arange n;
                    seq_scaled = normalize_grid seq_range;
                    bias = cpb_forward (rel_pos_bias m) seq_scaled vgrid_scaled;
                    sim = add4 sim bias;
                    attn = attention_weights sim
                in Inr (attn, v, vgrid))))))"

definition forward :: "module \<Rightarrow> t3 \<Rightarrow> bool \<Rightarrow> error + (t3 \<times> t2 option)" where
  "forward m x return_vgrid =
     bindE (forward_attn m x) (\<lambda>(attn, v, vgrid).
       let heads' = nat (self_heads m);
           inner = nat (out_features (to_q m));
           out = aggregate (inner div heads') attn v;
           out = merge_heads (length (hd x)) out
       in bindE (linear_forward (to_out m) out) (\<lambda>out.
            if return_vgrid then Inr (out, Some vgrid) else Inr (out, None)))"

subsection \<open>Shapes\<close>

text \<open>A nested list has shape \<open>(a, b)\<close> when it has \<open>a\<close> entries of length \<open>b\<close>, and
  so on for more axes; the entries of the last axis may be lists themselves.\<close>

definition shape2 :: "nat \<Rightarrow> nat \<Rightarrow> 'a list list \<Rightarrow> bool" where
  "shape2 a b t = (length t = a \<and> list_all (\<lambda>x. length x = b) t)"

definition shape3 :: "nat \<Rightarrow> nat \<Rightarrow> nat \<Rightarrow> 'a list list list \<Rightarrow> bool" where
  "shape3 a b c t = (length t = a \<and> list_all (shape2 b c) t)"

definition shape4 :: "nat \<Rightarrow> nat \<Rightarrow> nat \<Rightarrow> nat \<Rightarrow> 'a list list list list \<Rightarrow> bool" where
  "shape4 a b c d t = (length t = a \<and> list_all (shape3 b c d) t)"

text \<open>The size of the last axis of what a linear layer returns: the number of rows
  of its weight (and of entries of its bias).\<close>

definition out_width :: "linear \<Rightarrow> nat" where
  "out_width l =
     (case lin_bias l of None \<Rightarrow> length (lin_weight l)
      | Some b \<Rightarrow> min (length (lin_weight l)) (length b))"

subsection \<open>Two concrete configurations\<close>

text \<open>The end-to-end scenario of the specification: batch 1, length 8, \<open>dim = 16\<close>,
  \<open>dim_head = 4\<close>, \<open>heads = 2\<close>, one offset group, \<open>downsample_factor = 2\<close>,
  \<open>offset_kernel_size = 6\<close>, \<open>offset_scale = 4\<close>, no dropout.\<close>

definition scenario_config :: config where
  "scenario_config =
     \<lparr>dim = 16, dim_head = 4, heads = 2, dropout = 0, downsample_factor = 2, offset_scale = 4,
      offset_groups = Some 1, offset_kernel_size = 6\<rparr>"

definition scenario_input :: t3 where
  "scenario_input = replicate 1 (replicate 8 (replicate 16 0))"

text \<open>A configuration on which the forward call returns: the inner width
  \<open>heads * dim_head = 4\<close> is the width of the input, and the sequence has as many
  positions as a group has channels. The stride \<open>3\<close> does not divide the length \<open>4\<close>.
  \<open>example_grouped\<close> is the grouped feature tensor of \<open>example_input\<close>, of shape (1, 4, 4).\<close>

definition example_config :: config where
  "example_config =
     \<lparr>dim = 4, dim_head = 2, heads = 2, dropout = 0, downsample_factor = 3, offset_scale = 4,
      offset_groups = Some 1, offset_kernel_size = 5\<rparr>"

definition example_params :: params where
  "example_params =
     \<lparr>offsets_conv_weight = replicate 4 [[1, 0, - 1, 0, 1]],
      offsets_conv_bias = [0, 1, 0, 1],
      offsets_proj_weight = [[[1], [- 1], [1], [- 1]]],
      cpb_in_weight = [[1]], cpb_in_bias = [0],
      cpb_hidden_weight = [[1]], cpb_hidden_bias = [0],
      cpb_out_weight = [[1], [2]], cpb_out_bias = [0, 0],
      to_q_weight = [[1, 0, 0, 0], [0, 1, 0, 0], [0, 0, 1, 0], [0, 0, 0, 1]],
      to_kv_weight = replicate 8 [1, 0, 0, 1],
      to_out_weight = replicate 4 [0, 1, 1, 0],
      to_out_bias = [0, 0, 0, 0]\<rparr>"

definition example_module :: module where
  "example_module = projr (init example_config example_params)"

definition example_input :: t3 where
  "example_input = [[[1, 2, 3, 4], [5, 6, 7, 8], [9, 10, 11, 12], [13, 14, 15, 16]]]"

definition example_grouped :: t3 where
  "example_grouped = [[[1, 5, 9, 13], [2, 6, 10, 14], [3, 7, 11, 15], [4, 8, 12, 16]]]"

section \<open>Properties\<close>

subsection \<open>Results and errors\<close>

lemma bindE_Inr [simp]: "bindE (Inr v) f = f v"
  by (simp add: bindE_def)

lemma bindE_Inl [simp]: "bindE (Inl e) f = Inl e"
  by (simp add: bindE_def)

lemma bindE_Inr_iff: "bindE r f = Inr y \<longleftrightarrow> (\<exists>v. r = Inr v \<and> f v = Inr y)"
  by (cases r) simp_all

lemma bindE_Inl_iff: "bindE r f = Inl e \<longleftrightarrow> r = Inl e \<or> (\<exists>v. r = Inr v \<and> f v = Inl e)"
  by (cases r) simp_all

subsection \<open>Grid normalisation\<close>

lemma normalize_grid_length [simp]: "length (normalize_grid g) = length g"
  by (simp add: normalize_grid_def)

lemma normalize_grid_nth:
  "i < length g \<Longrightarrow>
     normalize_grid g ! i = 2 * (g ! i) / of_int (max (int (length g) - 1) 1) - 1"
  by (simp add: normalize_grid_def)

text \<open>
  Claim C3, as stated, fails: for a grid of length one the divisor is
  \<open>max (1 - 1) 1 = 1\<close>, so nothing is divided by zero, but the position \<open>a\<close> is sent to
  \<open>2 * a - 1\<close>; the base grid \<open>arange 1 = [0]\<close> is sent to \<open>[-1]\<close>, not to \<open>[0]\<close>.
\<close>

theorem normalize_grid_length_one_counterexample:
  "normalize_grid (arange 1) = [- 1] \<and> normalize_grid (arange 1) \<noteq> [0]"
  by (simp add: normalize_grid_def arange_def)

text \<open>
  Claim C3, amended: on a grid of length one the normalisation divides by one and
  returns \<open>2 * a - 1\<close> for the position \<open>a\<close>; for the base position \<open>0\<close> that is \<open>-1\<close>.
\<close>

theorem normalize_grid_length_one:
  "normalize_grid [a] = [2 * a - 1] \<and> normalize_grid (arange 1) = [- 1]"
  by (simp add: normalize_grid_def arange_def)

text \<open>
  Claim C6: for a grid of length \<open>N > 1\<close> the normalisation sends the index \<open>0\<close> to
  \<open>-1\<close> and the index \<open>N - 1\<close> to \<open>+1\<close>.
\<close>

theorem normalize_grid_endpoints:
  assumes "1 < N"
  shows "normalize_grid (arange N) ! 0 = - 1 \<and> normalize_grid (arange N) ! (N - 1) = 1"
proof -
  define d where "d = real N - 1"
  have d: "d \<noteq> 0"
    using assms by (simp add: d_def)
  have len: "length (arange N) = N"
    by (simp add: arange_def)
  have first: "arange N ! 0 = 0"
    using assms by (simp add: arange_def)
  have last: "arange N ! (N - 1) = d"
    using assms by (simp add: arange_def of_nat_diff d_def)
  have mx: "real_of_int (max (int N - 1) 1) = d"
    using assms by (simp add: d_def)
  have "normalize_grid (arange N) ! 0 = - 1"
    using assms by (simp add: normalize_grid_nth len first)
  moreover have "normalize_grid (arange N) ! (N - 1) = 2 * d / d - 1"
    using assms by (subst normalize_grid_nth) (simp_all only: len last mx diff_less zero_less_one)
  ultimately show ?thesis
    using d by simp
qed

theorem normalize_grid_endpoints_witness:
  "(1::nat) < 5 \<and> normalize_grid (arange 5) ! 0 = - 1 \<and> normalize_grid (arange 5) ! (5 - 1) = 1"
  using normalize_grid_endpoints [of 5] by simp

subsection \<open>The signed logarithm\<close>

text \<open>
  Claim C8: the input of the bias network for a query position \<open>p\<close> and a key position
  \<open>q\<close>, \<open>sign (p - q) * log (|p - q| + 1)\<close>, is antisymmetric in the two positions and
  vanishes when they coincide.
\<close>

theorem signed_log_antisymmetric:
  "signed_log (p - q) = - signed_log (q - p) \<and> signed_log (p - p) = 0"
proof -
  have "sgn (p - q) = - sgn (q - p)"
    by (simp add: sgn_real_def)
  moreover have "\<bar>p - q\<bar> = \<bar>q - p\<bar>"
    by simp
  ultimately show ?thesis
    by (simp add: signed_log_def)
qed

subsection \<open>Configuration errors\<close>

text \<open>
  Claim C10: the constructor raises AssertionError exactly when
  \<open>(offset_kernel_size - downsample_factor) mod 2 \<noteq> 0\<close> or \<open>heads mod offset_groups \<noteq> 0\<close>
  (\<open>offset_groups\<close> being \<open>heads\<close> when it is not given), so it rejects both violations
  and, when both constraints hold, raises no configuration error. A zero
  \<open>offset_groups\<close> fails in the division itself. The assertions are the first
  statements of the constructor, so no forward call can precede them.
\<close>

theorem init_configuration_error:
  "(init c w = Inl AssertionError \<longleftrightarrow>
      (offset_kernel_size c - downsample_factor c) mod 2 \<noteq> 0 \<or>
      (default (offset_groups c) (heads c) \<noteq> 0 \<and>
       heads c mod default (offset_groups c) (heads c) \<noteq> 0))
   \<and> ((offset_kernel_size c - downsample_factor c) mod 2 = 0 \<and>
        default (offset_groups c) (heads c) = 0 \<longrightarrow> init c w = Inl ZeroDivisionError)"
  by (auto simp: init_def check_config_def divisible_by_def Let_def bindE_def)

theorem init_configuration_error_witness:
  "(\<forall>w. init \<lparr>dim = 512, dim_head = 64, heads = 8, dropout = 0, downsample_factor = 4,
        offset_scale = 4, offset_groups = None, offset_kernel_size = 6\<rparr> w \<noteq> Inl AssertionError)
   \<and> (\<forall>w. init \<lparr>dim = 512, dim_head = 64, heads = 8, dropout = 0, downsample_factor = 4,
        offset_scale = 4, offset_groups = None, offset_kernel_size = 5\<rparr> w = Inl AssertionError)
   \<and> (\<forall>w. init \<lparr>dim = 512, dim_head = 64, heads = 8, dropout = 0, downsample_factor = 4,
        offset_scale = 4, offset_groups = Some 3, offset_kernel_size = 6\<rparr> w = Inl AssertionError)"
  using init_configuration_error
  by (simp add: default_def)

subsection \<open>Shapes along the forward call\<close>

text \<open>What each stage needs of the shape of its input to return, and the shape of
  what it returns.\<close>

lemma hd_map_upt: "0 < n \<Longrightarrow> hd (map f [0..<n]) = f 0"
  by (simp add: upt_conv_Cons)

lemma length_transpose2: "length (transpose2 m) = length (hd m)"
  by (simp add: transpose2_def)

lemma length_hd_transpose2: "0 < length (hd m) \<Longrightarrow> length (hd (transpose2 m)) = length m"
  by (simp add: transpose2_def hd_map_upt)

lemma transpose2_rows: "row \<in> set (transpose2 m) \<Longrightarrow> length row = length m"
  by (auto simp: transpose2_def)

lemma length_conv1d_channel:
  "length (conv1d_channel c xb oc) = conv_out_len c (length (hd xb))"
  by (simp add: conv1d_channel_def Let_def)

lemma conv1d_forward_InrD:
  assumes "conv1d_forward c x = Inr y"
  shows "0 < in_channels c" and "0 < out_channels c" and "0 < kernel_size c"
    and "0 < stride c" and "0 \<le> padding c"
    and "\<forall>xb\<in>set x. int (length xb) = in_channels c"
    and "\<forall>xb\<in>set x. \<forall>row\<in>set xb. kernel_size c \<le> int (length row) + 2 * padding c"
    and "y = map (\<lambda>xb. map (conv1d_channel c xb) [0..<nat (out_channels c)]) x"
  using assms by (auto simp: conv1d_forward_def list_all_iff split: if_splits)

lemma conv1d_forward_InrI:
  assumes "0 < in_channels c" and "0 < out_channels c" and "0 < kernel_size c"
    and "0 < stride c" and "0 \<le> padding c" and "0 < groups c"
    and "\<forall>xb\<in>set x. int (length xb) = in_channels c"
    and "\<forall>xb\<in>set x. \<forall>row\<in>set xb. kernel_size c \<le> int (length row) + 2 * padding c"
  shows "conv1d_forward c x = Inr (map (\<lambda>xb. map (conv1d_channel c xb) [0..<nat (out_channels c)]) x)"
  using assms by (auto simp: conv1d_forward_def list_all_iff)

lemma conv1d_forward_error: "conv1d_forward c x = Inl e \<Longrightarrow> e = RuntimeError"
  by (auto simp: conv1d_forward_def split: if_splits)

lemma linear_forward_error: "linear_forward l x = Inl e \<Longrightarrow> e = RuntimeError"
  by (auto simp: linear_forward_def split: if_splits)

lemma group_feats_error: "group_feats g c q = Inl e \<Longrightarrow> e = RuntimeError"
  by (auto simp: group_feats_def split: if_splits)

lemma conv_out_len_pos:
  assumes "0 < stride c" and "kernel_size c \<le> int L + 2 * padding c"
  shows "0 < conv_out_len c L"
proof -
  have "0 \<le> (int L + 2 * padding c - kernel_size c) div stride c"
    using assms by (simp add: pos_imp_zdiv_nonneg_iff)
  then show ?thesis
    by (simp add: conv_out_len_def)
qed

lemma conv_out_len_pointwise:
  assumes "kernel_size c = 1" and "stride c = 1" and "padding c = 0"
  shows "conv_out_len c L = L"
  by (simp add: conv_out_len_def assms)

lemma conv_out_len_strided:
  assumes "0 < stride c" and "2 * padding c = kernel_size c - stride c"
  shows "int (conv_out_len c L) = int L div stride c"
proof -
  have "int L + 2 * padding c - kernel_size c = int L - stride c"
    using assms(2) by simp
  then have "(int L + 2 * padding c - kernel_size c) div stride c + 1 =
               (int L - stride c) div stride c + 1"
    by (simp only:)
  also have "\<dots> = int L div stride c"
    using assms(1) div_add_self2 [of "stride c" "int L - stride c"] by simp
  finally have "conv_out_len c L = nat (int L div stride c)"
    by (simp add: conv_out_len_def)
  moreover have "0 \<le> int L div stride c"
    using assms(1) by (simp add: pos_imp_zdiv_nonneg_iff)
  ultimately show ?thesis by simp
qed


lemma to_offsets_InrD:
  assumes "to_offsets m x = Inr offs"
    and "kernel_size (to_offsets_proj m) = 1" and "stride (to_offsets_proj m) = 1"
    and "padding (to_offsets_proj m) = 0" and "out_channels (to_offsets_proj m) = 1"
  shows "length offs = length x"
    and "0 < in_channels (to_offsets_conv m)"
    and "0 < stride (to_offsets_conv m)"
    and "0 \<le> padding (to_offsets_conv m)"
    and "\<forall>xb\<in>set x. int (length (hd xb)) = in_channels (to_offsets_conv m)"
    and "\<forall>xb\<in>set x. kernel_size (to_offsets_conv m)
            \<le> int (length xb) + 2 * padding (to_offsets_conv m)"
    and "\<forall>i<length x. length (offs ! i) = conv_out_len (to_offsets_conv m) (length (x ! i))"
proof -
  let ?c = "to_offsets_conv m" and ?p = "to_offsets_proj m"
  obtain x2 x4 where c1: "conv1d_forward ?c (map transpose2 x) = Inr x2"
    and c2: "conv1d_forward ?p (map (map (map gelu)) x2) = Inr x4"
    and offs: "offs = map (map (\<lambda>v. v * to_offsets_scale m)) (map (map tanh) (map hd x4))"
    using assms(1) unfolding to_offsets_def Let_def bindE_Inr_iff by blast
  note d1 = conv1d_forward_InrD [OF c1] and d2 = conv1d_forward_InrD [OF c2]
  show "0 < in_channels ?c" "0 < stride ?c" "0 \<le> padding ?c"
    by (rule d1)+
  show chan: "\<forall>xb\<in>set x. int (length (hd xb)) = in_channels ?c"
    using d1(6) by (simp add: length_transpose2)
  show kern: "\<forall>xb\<in>set x. kernel_size ?c \<le> int (length xb) + 2 * padding ?c"
  proof
    fix xb assume xb: "xb \<in> set x"
    then have "0 < length (hd xb)"
      using chan d1(1) by fastforce
    then have "transpose2 xb \<noteq> []"
      using length_transpose2 [of xb] by auto
    then obtain row where "row \<in> set (transpose2 xb)"
      by (cases "transpose2 xb") auto
    then show "kernel_size ?c \<le> int (length xb) + 2 * padding ?c"
      using d1(7) xb transpose2_rows [of row xb] by fastforce
  qed
  show "length offs = length x"
    by (simp add: offs d2(8) d1(8))
  show "\<forall>i<length x. length (offs ! i) = conv_out_len ?c (length (x ! i))"
  proof (intro allI impI)
    fix i assume i: "i < length x"
    then have xi: "x ! i \<in> set x"
      by simp
    have pos: "0 < length (hd (x ! i))"
      using chan d1(1) xi by fastforce
    have out: "0 < nat (out_channels ?c)"
      using d1(2) by simp
    have x2i: "x2 ! i = map (conv1d_channel ?c (transpose2 (x ! i))) [0..<nat (out_channels ?c)]"
      using i by (simp add: d1(8))
    have "length (hd (x2 ! i)) = conv_out_len ?c (length (hd (transpose2 (x ! i))))"
      using out by (simp add: x2i hd_map_upt length_conv1d_channel)
    then have len2: "length (hd (x2 ! i)) = conv_out_len ?c (length (x ! i))"
      using pos by (simp add: length_hd_transpose2)
    have ne: "x2 ! i \<noteq> []"
      using out by (simp add: x2i)
    have "x4 ! i = map (conv1d_channel ?p (map (map gelu) (x2 ! i))) [0..<nat (out_channels ?p)]"
      using i by (simp add: d2(8) d1(8))
    then have "hd (x4 ! i) = conv1d_channel ?p (map (map gelu) (x2 ! i)) 0"
      by (simp add: assms(5) hd_map_upt)
    then have "length (hd (x4 ! i)) = length (hd (x2 ! i))"
      using ne by (simp add: length_conv1d_channel conv_out_len_pointwise assms(2-4) hd_map)
    then show "length (offs ! i) = conv_out_len ?c (length (x ! i))"
      using i len2 by (simp add: offs d2(8) d1(8))
  qed
qed

lemma to_offsets_InrI:
  assumes "0 < in_channels (to_offsets_conv m)"
    and "out_channels (to_offsets_conv m) = in_channels (to_offsets_conv m)"
    and "0 < kernel_size (to_offsets_conv m)" and "0 < stride (to_offsets_conv m)"
    and "0 \<le> padding (to_offsets_conv m)" and "0 < groups (to_offsets_conv m)"
    and "in_channels (to_offsets_proj m) = in_channels (to_offsets_conv m)"
    and "out_channels (to_offsets_proj m) = 1" and "kernel_size (to_offsets_proj m) = 1"
    and "stride (to_offsets_proj m) = 1" and "padding (to_offsets_proj m) = 0"
    and "groups (to_offsets_proj m) = 1"
    and "\<forall>xb\<in>set x. int (length (hd xb)) = in_channels (to_offsets_conv m)"
    and "\<forall>xb\<in>set x. kernel_size (to_offsets_conv m)
            \<le> int (length xb) + 2 * padding (to_offsets_conv m)"
  shows "\<exists>offs. to_offsets m x = Inr offs"
proof -
  let ?c = "to_offsets_conv m" and ?p = "to_offsets_proj m"
  let ?x2 = "map (\<lambda>xb. map (conv1d_channel ?c xb) [0..<nat (out_channels ?c)]) (map transpose2 x)"
  have c1: "conv1d_forward ?c (map transpose2 x) = Inr ?x2"
  proof (rule conv1d_forward_InrI)
    show "\<forall>xb\<in>set (map transpose2 x). int (length xb) = in_channels ?c"
      using assms(13) by (simp add: length_transpose2)
    show "\<forall>xb\<in>set (map transpose2 x). \<forall>row\<in>set xb.
            kernel_size ?c \<le> int (length row) + 2 * padding ?c"
      using assms(14) by (auto simp: transpose2_rows)
  qed (use assms in simp_all)
  let ?x3 = "map (map (map gelu)) ?x2"
  let ?x4 = "map (\<lambda>xb. map (conv1d_channel ?p xb) [0..<nat (out_channels ?p)]) ?x3"
  have c2: "conv1d_forward ?p ?x3 = Inr ?x4"
  proof (rule conv1d_forward_InrI)
    show "\<forall>xb\<in>set ?x3. int (length xb) = in_channels ?p"
      using assms(1,2,7) by simp
    show "\<forall>xb\<in>set ?x3. \<forall>row\<in>set xb. kernel_size ?p \<le> int (length row) + 2 * padding ?p"
    proof (intro ballI)
      fix xb row assume "xb \<in> set ?x3" and row: "row \<in> set xb"
      then obtain xa where xa: "xa \<in> set x"
        and xb: "xb = map (map gelu) (map (conv1d_channel ?c (transpose2 xa))
                   [0..<nat (out_channels ?c)])"
        by auto
      have "0 < length (hd xa)"
        using assms(1,13) xa by fastforce
      then have "length (hd (transpose2 xa)) = length xa"
        by (rule length_hd_transpose2)
      moreover have "0 < conv_out_len ?c (length xa)"
        using assms(4,14) xa by (intro conv_out_len_pos) auto
      moreover obtain oc where "row = map gelu (conv1d_channel ?c (transpose2 xa) oc)"
        using row by (auto simp: xb)
      ultimately have "0 < length row"
        by (simp add: length_conv1d_channel)
      then have "1 \<le> int (length row)"
        by linarith
      then show "kernel_size ?p \<le> int (length row) + 2 * padding ?p"
        by (simp only: assms(9,11))
    qed
  qed (use assms in simp_all)
  show ?thesis
    unfolding to_offsets_def Let_def c1 bindE_Inr c2 by blast
qed


lemma init_InrD:
  assumes "init c w = Inr m"
  shows "(offset_kernel_size c - downsample_factor c) mod 2 = 0"
    and "default (offset_groups c) (heads c) \<noteq> 0"
    and "heads c mod default (offset_groups c) (heads c) = 0"
    and "dim_head c \<noteq> 0"
    and "self_heads m = heads c"
    and "self_offset_groups m = default (offset_groups c) (heads c)"
    and "to_offsets_scale m = offset_scale c"
    and "to_offsets_conv m =
           \<lparr>in_channels = dim_head c * heads c div default (offset_groups c) (heads c),
            out_channels = dim_head c * heads c div default (offset_groups c) (heads c),
            kernel_size = offset_kernel_size c,
            groups = dim_head c * heads c div default (offset_groups c) (heads c),
            stride = downsample_factor c,
            padding = (offset_kernel_size c - downsample_factor c) div 2,
            conv_weight = offsets_conv_weight w, conv_bias = Some (offsets_conv_bias w)\<rparr>"
    and "to_offsets_proj m =
           \<lparr>in_channels = dim_head c * heads c div default (offset_groups c) (heads c),
            out_channels = 1, kernel_size = 1, groups = 1, stride = 1, padding = 0,
            conv_weight = offsets_proj_weight w, conv_bias = None\<rparr>"
    and "to_q m = \<lparr>in_features = dim c, out_features = dim_head c * heads c,
                     lin_weight = to_q_weight w, lin_bias = None\<rparr>"
    and "to_kv m = \<lparr>in_features = dim c, out_features = dim_head c * heads c * 2,
                      lin_weight = to_kv_weight w, lin_bias = None\<rparr>"
    and "to_out m = \<lparr>in_features = dim_head c * heads c, out_features = dim c,
                       lin_weight = to_out_weight w, lin_bias = Some (to_out_bias w)\<rparr>"
    and "rel_pos_bias m =
           cpb_init (dim c div 4) (heads c) (default (offset_groups c) (heads c)) w"
  using assms
  by (auto simp: init_def check_config_def divisible_by_def bindE_Inr_iff Let_def
      split: if_splits)

lemma group_feats_InrD:
  assumes "group_feats g c q = Inr gf"
  shows "0 < g" and "c mod g = 0" and "length gf = length q * g"
    and "\<forall>xb\<in>set gf. length xb = c div g"
    and "\<forall>qb\<in>set q. length qb = L \<Longrightarrow> \<forall>xb\<in>set gf. \<forall>row\<in>set xb. length row = L"
proof -
  have gf: "gf = concat (map (\<lambda>qb.
             map (\<lambda>gi. map (\<lambda>di. map (\<lambda>qn. qn ! (gi * (c div g) + di)) qb) [0..<c div g])
               [0..<g]) q)"
    and g: "g \<noteq> 0" "c mod g = 0"
    using assms by (auto simp: group_feats_def split: if_splits)
  show "0 < g" "c mod g = 0"
    using g by simp_all
  show "length gf = length q * g"
    by (simp add: gf length_concat comp_def sum_list_triv)
  show "\<forall>xb\<in>set gf. length xb = c div g"
    by (auto simp: gf)
  show "\<forall>xb\<in>set gf. \<forall>row\<in>set xb. length row = L" if "\<forall>qb\<in>set q. length qb = L"
    using that by (auto simp: gf)
qed

lemma group_feats_InrI:
  "0 < g \<Longrightarrow> c mod g = 0 \<Longrightarrow> \<exists>gf. group_feats g c q = Inr gf"
  by (simp add: group_feats_def)

lemma linear_forward_InrD:
  assumes "linear_forward l x = Inr y"
  shows "y = map (map (linear_vec l)) x"
    and "\<forall>xb\<in>set x. \<forall>v\<in>set xb. int (length v) = in_features l"
  using assms by (auto simp: linear_forward_def list_all_iff split: if_splits)

lemma linear_forward_InrI:
  "\<forall>xb\<in>set x. \<forall>v\<in>set xb. int (length v) = in_features l \<Longrightarrow>
     linear_forward l x = Inr (map (map (linear_vec l)) x)"
  by (simp add: linear_forward_def list_all_iff)

lemma ungroup_feats_rows:
  assumes "xb \<in> set (ungroup_feats b g d n kv)" and "v \<in> set xb"
  shows "length v = g * d"
proof -
  obtain ni bi where "v = concat (map (\<lambda>gi. map (\<lambda>di. kv ! (bi * g + gi) ! di ! ni) [0..<d]) [0..<g])"
    using assms by (auto simp: ungroup_feats_def)
  then show ?thesis
    by (simp add: length_concat comp_def sum_list_triv)
qed

lemma ungroup_feats_nonempty:
  assumes "0 < b" and "0 < n"
  shows "\<exists>xb\<in>set (ungroup_feats b g d n kv). \<exists>v. v \<in> set xb"
proof -
  have "0 \<in> set [0..<b]" "0 \<in> set [0..<n]"
    using assms by simp_all
  then show ?thesis
    unfolding ungroup_feats_def by (metis (no_types, lifting) imageI list.set_map)
qed


lemma forward_attn_InrD:
  assumes "forward_attn m x = Inr (attn, v, vgrid)"
  obtains q gf offs kv where
    "linear_forward (to_q m) x = Inr q"
    "group_feats (nat (self_offset_groups m)) (nat (out_features (to_q m))) q = Inr gf"
    "to_offsets m gf = Inr offs"
    "vgrid = map (\<lambda>row. map2 (+) (arange (length (hd offs))) row) offs"
    "linear_forward (to_kv m)
       (ungroup_feats (length x) (nat (self_offset_groups m))
          (nat (out_features (to_q m)) div nat (self_offset_groups m)) (length (hd offs))
          (grid_sample_1d gf (normalize_grid2 vgrid))) = Inr kv"
  using assms unfolding forward_attn_def Let_def bindE_Inr_iff by blast


lemma offsets_core:
  assumes init: "init c w = Inr m"
    and q: "linear_forward (to_q m) x = Inr q"
    and gf: "group_feats (nat (self_offset_groups m)) (nat (out_features (to_q m))) q = Inr gf"
    and offs: "to_offsets m gf = Inr offs"
    and len: "\<forall>xb\<in>set x. length xb = L"
    and ne: "x \<noteq> []"
  shows "int L = dim_head c * heads c div default (offset_groups c) (heads c)"
    and "\<forall>row\<in>set offs. int (length row) = int L div downsample_factor c"
    and "length offs = length x * nat (default (offset_groups c) (heads c))"
    and "offs \<noteq> []"
    and "0 < int L div downsample_factor c"
    and "0 < dim_head c * heads c"
    and "nat (dim_head c * heads c) mod nat (default (offset_groups c) (heads c)) = 0"
proof -
  define og where "og = default (offset_groups c) (heads c)"
  define inner where "inner = dim_head c * heads c"
  note I = init_InrD [OF init, folded og_def inner_def]
  let ?cv = "to_offsets_conv m"
  have qlen: "\<forall>qb\<in>set q. length qb = L" and lq: "length q = length x"
    using linear_forward_InrD(1) [OF q] len by auto
  note G = group_feats_InrD [OF gf, unfolded I, simplified]
  have proj: "kernel_size (to_offsets_proj m) = 1" "stride (to_offsets_proj m) = 1"
    "padding (to_offsets_proj m) = 0" "out_channels (to_offsets_proj m) = 1"
    by (simp_all add: I)
  note T = to_offsets_InrD [OF offs proj]
  have cv: "in_channels ?cv = inner div og" "stride ?cv = downsample_factor c"
    "kernel_size ?cv = offset_kernel_size c"
    "padding ?cv = (offset_kernel_size c - downsample_factor c) div 2"
    by (simp_all add: I)
  have og: "0 < og"
    using G(1) by simp
  have chan: "0 < inner div og"
    using T(2) by (simp add: cv)
  show inner: "0 < inner"
  proof (rule ccontr)
    assume "\<not> 0 < inner"
    then have "inner div og \<le> 0"
      using og by (simp add: div_nonpos_pos_le0)
    then show False
      using chan by simp
  qed
  show "nat inner mod nat og = 0"
    by (rule G(2))
  define D where "D = nat inner div nat og"
  have "nat (inner div og) = D"
    using inner by (simp add: D_def nat_div_distrib)
  then have D: "int D = inner div og"
    using chan by linarith
  have Dpos: "0 < D"
    using D chan by simp
  have gfne: "gf \<noteq> []"
    using G(3) G(1) ne lq by auto
  have rows: "\<forall>xb\<in>set gf. length xb = D \<and> length (hd xb) = L"
  proof
    fix xb assume xb: "xb \<in> set gf"
    then have l: "length xb = D"
      using G(4) by (simp add: D_def)
    then have "hd xb \<in> set xb"
      using Dpos by (cases xb) auto
    then show "length xb = D \<and> length (hd xb) = L"
      using G(5) [OF qlen] xb l by simp
  qed
  have hdgf: "hd gf \<in> set gf"
    using gfne by simp
  show L: "int L = inner div og"
    using T(5) rows hdgf by (fastforce simp: cv)
  have twice: "2 * padding ?cv = kernel_size ?cv - stride ?cv"
    using I(1) by (simp add: cv) presburger
  have stride: "0 < stride ?cv"
    by (rule T(3))
  define M where "M = conv_out_len ?cv D"
  have Mint: "int M = int L div downsample_factor c"
    using conv_out_len_strided [OF stride twice, of D] by (simp add: M_def D L cv)
  have Mpos: "0 < M"
    unfolding M_def using stride
  proof (rule conv_out_len_pos)
    show "kernel_size ?cv \<le> int D + 2 * padding ?cv"
      using T(6) rows hdgf by fastforce
  qed
  show "0 < int L div downsample_factor c"
    using Mint Mpos by simp
  show "\<forall>row\<in>set offs. int (length row) = int L div downsample_factor c"
  proof
    fix row assume "row \<in> set offs"
    then obtain i where i: "i < length offs" and row: "row = offs ! i"
      by (auto simp: in_set_conv_nth)
    then have "i < length gf"
      using T(1) by simp
    then have "length (offs ! i) = conv_out_len ?cv (length (gf ! i))" and "gf ! i \<in> set gf"
      using T(7) by simp_all
    then show "int (length row) = int L div downsample_factor c"
      using rows Mint by (simp add: row M_def)
  qed
  show "length offs = length x * nat og"
    using G(3) T(1) lq by simp
  show "offs \<noteq> []"
    using T(1) gfne by auto
qed

lemma forward_attn_core:
  assumes init: "init c w = Inr m"
    and fw: "forward_attn m x = Inr (attn, v, vgrid)"
    and len: "\<forall>xb\<in>set x. length xb = L"
    and ne: "x \<noteq> []"
  shows "int L = dim_head c * heads c div default (offset_groups c) (heads c)"
    and "dim c = dim_head c * heads c"
    and "\<forall>row\<in>set vgrid. int (length row) = int L div downsample_factor c"
    and "length vgrid = length x * nat (default (offset_groups c) (heads c))"
proof -
  define og where "og = default (offset_groups c) (heads c)"
  define inner where "inner = dim_head c * heads c"
  note I = init_InrD [OF init, folded og_def inner_def]
  obtain q gf offs kv where q: "linear_forward (to_q m) x = Inr q"
    and gf: "group_feats (nat (self_offset_groups m)) (nat (out_features (to_q m))) q = Inr gf"
    and offs: "to_offsets m gf = Inr offs"
    and vgrid: "vgrid = map (\<lambda>row. map2 (+) (arange (length (hd offs))) row) offs"
    and kv: "linear_forward (to_kv m)
       (ungroup_feats (length x) (nat (self_offset_groups m))
          (nat (out_features (to_q m)) div nat (self_offset_groups m)) (length (hd offs))
          (grid_sample_1d gf (normalize_grid2 vgrid))) = Inr kv"
    using fw by (rule forward_attn_InrD)
  note O = offsets_core [OF init q gf offs len ne, folded og_def inner_def]
  show "int L = inner div og"
    by (rule O(1))
  have hd: "hd offs \<in> set offs"
    using O(4) by simp
  show "\<forall>row\<in>set vgrid. int (length row) = int L div downsample_factor c"
  proof
    fix row' assume "row' \<in> set vgrid"
    then obtain row where row: "row \<in> set offs"
      and row': "row' = map2 (+) (arange (length (hd offs))) row"
      by (auto simp: vgrid)
    have "int (length row) = int (length (hd offs))"
      using O(2) hd row by simp
    then have "length row' = length row"
      by (simp add: row' arange_def)
    then show "int (length row') = int L div downsample_factor c"
      using O(2) row by simp
  qed
  show "length vgrid = length x * nat og"
    using O(3) by (simp add: vgrid)
  let ?kvf = "ungroup_feats (length x) (nat og) (nat inner div nat og) (length (hd offs))
                (grid_sample_1d gf (normalize_grid2 vgrid))"
  have "0 < length (hd offs)"
    using O(2,5) hd by fastforce
  then have "\<exists>xb\<in>set ?kvf. \<exists>u. u \<in> set xb"
    using ne by (intro ungroup_feats_nonempty) simp_all
  then obtain xb u where xb: "xb \<in> set ?kvf" and u: "u \<in> set xb"
    by blast
  have "length u = nat og * (nat inner div nat og)"
    using xb u by (rule ungroup_feats_rows)
  also have "\<dots> = nat inner"
    using O(7) mult_div_mod_eq [of "nat og" "nat inner"] by simp
  finally have "int (length u) = inner"
    using O(6) by simp
  moreover have "int (length u) = in_features (to_kv m)"
    using linear_forward_InrD(2) [OF kv] xb u by (simp add: I)
  ultimately show "dim c = inner"
    by (simp add: I)
qed

lemma forward_attn_InrI:
  assumes init: "init c w = Inr m"
    and shape: "\<forall>xb\<in>set x. length xb = L \<and> (\<forall>u\<in>set xb. int (length u) = dim c)"
    and dim: "dim c = dim_head c * heads c"
    and og: "0 < default (offset_groups c) (heads c)"
    and L: "int L = dim_head c * heads c div default (offset_groups c) (heads c)"
    and s: "0 < downsample_factor c" "downsample_factor c \<le> offset_kernel_size c"
      "downsample_factor c \<le> int L"
  shows "\<exists>attn v vgrid. forward_attn m x = Inr (attn, v, vgrid)"
proof -
  define og' where "og' = default (offset_groups c) (heads c)"
  define inner where "inner = dim_head c * heads c"
  note I = init_InrD [OF init, folded og'_def inner_def]
  let ?cv = "to_offsets_conv m"
  let ?g = "nat (self_offset_groups m)" and ?c = "nat (out_features (to_q m))"
  have g: "?g = nat og'" and c: "?c = nat inner"
    by (simp_all add: I)
  have Lpos: "0 < int L"
    using s by linarith
  have inner: "0 < inner"
  proof (rule ccontr)
    assume "\<not> 0 < inner"
    then have "inner div og' \<le> 0"
      using og by (simp add: div_nonpos_pos_le0 og'_def)
    then show False
      using Lpos L by (simp add: inner_def og'_def)
  qed
  have "nat (inner div og') = nat inner div nat og'"
    using inner by (simp add: nat_div_distrib)
  then have D: "nat inner div nat og' = L"
    using L by (simp add: inner_def og'_def)
  have "og' dvd inner"
    using I(3) by (simp add: inner_def dvd_eq_mod_eq_0 [symmetric])
  then have "inner mod og' = 0"
    by simp
  then have "nat inner mod nat og' = nat 0"
    using inner og nat_mod_distrib [of inner og'] by (simp add: og'_def)
  then have cmod: "?c mod ?g = 0"
    by (simp add: g c)
  have q: "linear_forward (to_q m) x = Inr (map (map (linear_vec (to_q m))) x)"
    using shape by (intro linear_forward_InrI) (simp add: I)
  let ?q = "map (map (linear_vec (to_q m))) x"
  obtain gf where gf: "group_feats ?g ?c ?q = Inr gf"
    using group_feats_InrI [OF _ cmod] og by (auto simp: g og'_def)
  note G = group_feats_InrD [OF gf]
  have "\<forall>qb\<in>set ?q. length qb = L"
    using shape by auto
  note rowsL = G(5) [OF this]
  have rows: "\<forall>xb\<in>set gf. length xb = L \<and> length (hd xb) = L"
  proof
    fix xb assume xb: "xb \<in> set gf"
    then have l: "length xb = L"
      using G(4) by (simp add: g c D)
    then have "hd xb \<in> set xb"
      using Lpos by (cases xb) auto
    then show "length xb = L \<and> length (hd xb) = L"
      using rowsL xb l by simp
  qed
  have twice: "2 * ((offset_kernel_size c - downsample_factor c) div 2) =
                 offset_kernel_size c - downsample_factor c"
    using I(1) by presburger
  have "\<exists>offs. to_offsets m gf = Inr offs"
  proof (rule to_offsets_InrI)
    show "\<forall>xb\<in>set gf. int (length (hd xb)) = in_channels ?cv"
      using rows L by (simp add: I inner_def og'_def)
    show "\<forall>xb\<in>set gf. kernel_size ?cv \<le> int (length xb) + 2 * padding ?cv"
      using rows s(3) twice by (simp add: I)
    show "0 \<le> padding ?cv"
      using s(2) by (simp add: I)
  qed (use L Lpos s in \<open>simp_all add: I inner_def og'_def\<close>)
  then obtain offs where offs: "to_offsets m gf = Inr offs"
    by blast
  have kv: "linear_forward (to_kv m) (ungroup_feats b ?g (?c div ?g) n samp) =
              Inr (map (map (linear_vec (to_kv m))) (ungroup_feats b ?g (?c div ?g) n samp))"
    for b n samp
  proof (rule linear_forward_InrI, intro ballI)
    fix xb u assume "xb \<in> set (ungroup_feats b ?g (?c div ?g) n samp)" and "u \<in> set xb"
    then have "length u = ?g * (?c div ?g)"
      by (rule ungroup_feats_rows)
    also have "\<dots> = ?c"
      using cmod mult_div_mod_eq [of ?g ?c] by simp
    finally show "int (length u) = in_features (to_kv m)"
      using inner dim by (simp add: I inner_def)
  qed
  show ?thesis
    unfolding forward_attn_def Let_def q bindE_Inr gf offs kv by blast
qed

lemma to_offsets_error: "to_offsets m x = Inl e \<Longrightarrow> e = RuntimeError"
  unfolding to_offsets_def Let_def bindE_Inl_iff
  by (blast dest: conv1d_forward_error)

lemma forward_attn_error: "forward_attn m x = Inl e \<Longrightarrow> e = RuntimeError"
  unfolding forward_attn_def Let_def bindE_Inl_iff
  by (blast dest: linear_forward_error group_feats_error to_offsets_error)

lemma forward_error: "forward m x rv = Inl e \<Longrightarrow> e = RuntimeError"
  by (auto simp: forward_def Let_def bindE_Inl_iff
      dest: forward_attn_error linear_forward_error split: if_splits)

lemma forward_InrD:
  assumes "forward m x rv = Inr r"
  obtains attn v vgrid where "forward_attn m x = Inr (attn, v, vgrid)"
  using assms unfolding forward_def bindE_Inr_iff by auto

lemma example_init: "init example_config example_params = Inr example_module"
  by (simp add: example_module_def init_def check_config_def divisible_by_def default_def
      example_config_def Let_def)

lemma example_grouped_eq:
  "bindE (linear_forward (to_q example_module) example_input) (group_feats 1 4) =
     Inr example_grouped"
proof -
  have q: "to_q example_module =
      \<lparr>in_features = 4, out_features = 4,
       lin_weight = [[1, 0, 0, 0], [0, 1, 0, 0], [0, 0, 1, 0], [0, 0, 0, 1]], lin_bias = None\<rparr>"
    using init_InrD(10) [OF example_init] by (simp add: example_config_def example_params_def)
  have up: "[0..<4] = [0, 1, 2, 3]"
    by (simp add: upt_rec)
  show ?thesis
    by (simp add: q linear_forward_def linear_vec_def dot_def example_input_def group_feats_def
        example_grouped_def up)
qed

lemma example_forward_attn:
  obtains attn v vgrid where "forward_attn example_module example_input = Inr (attn, v, vgrid)"
proof -
  have "\<exists>attn v vgrid. forward_attn example_module example_input = Inr (attn, v, vgrid)"
    using example_init
    by (rule forward_attn_InrI [where L = 4])
      (simp_all add: example_config_def example_input_def default_def)
  then show ?thesis
    using that by blast
qed

lemma example_vgrid:
  assumes "forward_attn example_module example_input = Inr (attn, v, vgrid)"
  shows "map length vgrid = [1]"
proof -
  have shape: "example_input \<noteq> []" "\<forall>xb\<in>set example_input. length xb = 4"
    by (simp_all add: example_input_def)
  note C = forward_attn_core [OF example_init assms shape(2,1)]
  have "length vgrid = 1"
    using C(4) by (simp add: example_config_def example_input_def default_def)
  moreover have "\<forall>row\<in>set vgrid. length row = 1"
    using C(3) by (simp add: example_config_def)
  ultimately show ?thesis
    by (cases vgrid) auto
qed

subsection \<open>The length of the offset field\<close>

text \<open>The offset field itself, as the forward call computes it from the queries.\<close>

lemma offsets_length:
  assumes "init c w = Inr m"
    and "linear_forward (to_q m) x = Inr q"
    and "group_feats (nat (self_offset_groups m)) (nat (out_features (to_q m))) q = Inr gf"
    and "to_offsets m gf = Inr offsets"
    and "x \<noteq> []" and "\<forall>xb\<in>set x. length xb = L"
  shows "list_all (\<lambda>row. int (length row) = int L div downsample_factor c) offsets"
  using offsets_core(2) [OF assms(1-4,6,5)] by (simp add: list_all_iff)

text \<open>
  Claim C4, as stated, fails: with kernel \<open>5\<close>, stride \<open>3\<close> and padding \<open>1\<close> a sequence
  of length \<open>4\<close> gets one sampling position, and the ceiling of \<open>4 / 3\<close> is \<open>2\<close>.
\<close>

theorem deformed_grid_length_counterexample:
  "\<not> isl (forward_attn example_module example_input) \<and>
   map length (snd (snd (projr (forward_attn example_module example_input)))) = [1] \<and>
   \<lceil>(4 :: real) / 3\<rceil> = (2 :: int)"
proof -
  obtain attn v vgrid where fw: "forward_attn example_module example_input = Inr (attn, v, vgrid)"
    by (rule example_forward_attn)
  have "\<lceil>(4 :: real) / 3\<rceil> = (2 :: int)"
    by (simp add: ceiling_eq_iff)
  then show ?thesis
    using example_vgrid [OF fw] by (simp add: fw)
qed

text \<open>
  Claim C4, amended: whenever the forward call gets as far as the attention weights
  on a sequence of length \<open>L\<close>, every row of the deformed grid, which is the base grid
  plus the offset field entry by entry, has \<open>L div downsample_factor\<close> positions: the
  quotient rounded down. (The convolution has padding
  \<open>(offset_kernel_size - downsample_factor) div 2\<close> and stride \<open>downsample_factor\<close>.)
\<close>

theorem deformed_grid_length:
  assumes "init c w = Inr m" and "forward_attn m x = Inr (attn, v, vgrid)"
    and "x \<noteq> []" and "\<forall>xb\<in>set x. length xb = L"
  shows "list_all (\<lambda>row. int (length row) = int L div downsample_factor c) vgrid"
  using forward_attn_core(3) [OF assms(1,2,4,3)] by (simp add: list_all_iff)

theorem deformed_grid_length_witness:
  "list_all (\<lambda>row. int (length row) = 4 div 3)
     (snd (snd (projr (forward_attn example_module example_input)))) \<and>
   snd (snd (projr (forward_attn example_module example_input))) \<noteq> []"
proof -
  obtain attn v vgrid where fw: "forward_attn example_module example_input = Inr (attn, v, vgrid)"
    by (rule example_forward_attn)
  have "list_all (\<lambda>row. int (length row) = int 4 div downsample_factor example_config) vgrid"
    using example_init fw
    by (rule deformed_grid_length) (simp_all add: example_input_def)
  moreover have "vgrid \<noteq> []"
    using example_vgrid [OF fw] by auto
  ultimately show ?thesis
    by (simp add: fw example_config_def)
qed

subsection \<open>Offsets are bounded\<close>




subsection \<open>The bias of a head comes from the grid of its group\<close>

lemma length_concat_map_upt:
  "(\<And>g. g < G \<Longrightarrow> length (f g) = n) \<Longrightarrow> length (concat (map f [0..<G])) = G * n"
  by (induction G) simp_all





text \<open>The channels of the queries that make head \<open>h\<close> are channels of group
  \<open>h div n\<close> of the grouped features, \<open>n\<close> being the number of heads per group: that
  group owns the head.\<close>

lemma concat_map_nth_uniform:
  assumes "\<forall>x\<in>set xs. length (f x) = G" and "b < length xs" and "g < G"
  shows "concat (map f xs) ! (b * G + g) = f (xs ! b) ! g"
  using assms
proof (induction xs arbitrary: b)
  case Nil
  then show ?case by simp
next
  case (Cons x xs)
  show ?case
  proof (cases b)
    case 0
    then show ?thesis
      using Cons.prems by (simp add: nth_append)
  next
    case (Suc b')
    then have "concat (map f (x # xs)) ! (b * G + g) = concat (map f xs) ! (b' * G + g)"
      using Cons.prems by (simp add: nth_append)
    then show ?thesis
      using Cons Suc by simp
  qed
qed

lemma group_feats_nth:
  assumes "group_feats G c q = Inr gf" and "b < length q" and "g < G" and "di < c div G"
    and "i < length (q ! b)"
  shows "gf ! (b * G + g) ! di ! i = q ! b ! i ! (g * (c div G) + di)"
proof -
  let ?f = "\<lambda>qb. map (\<lambda>gi. map (\<lambda>di. map (\<lambda>qn. qn ! (gi * (c div G) + di)) qb) [0..<c div G])
               [0..<G]"
  have gf: "gf = concat (map ?f q)"
    using assms(1) by (auto simp: group_feats_def split: if_splits)
  have "gf ! (b * G + g) = ?f (q ! b) ! g"
    unfolding gf using assms(2,3) by (intro concat_map_nth_uniform) simp_all
  then show ?thesis
    using assms(3-5) by simp
qed

lemma split_heads_nth:
  assumes "b < length q" and "h < H" and "i < length (q ! b)" and "d < dh"
    and "H * dh \<le> length (q ! b ! i)"
  shows "split_heads H dh q ! b ! h ! i ! d = q ! b ! i ! (h * dh + d)"
proof -
  have "Suc h * dh \<le> H * dh"
    using assms(2) by (intro mult_le_mono1) simp
  then have "h * dh + d < length (q ! b ! i)"
    using assms(4,5) by simp
  then show ?thesis
    using assms(1-4) by (simp add: split_heads_def)
qed

lemma head_channels_in_group:
  assumes "group_feats G (G * n * dh) q = Inr gf"
    and "b < length q" and "i < length (q ! b)" and "h < G * n" and "d < dh"
    and "length (q ! b ! i) = G * n * dh"
  shows "split_heads (G * n) dh q ! b ! h ! i ! d =
           gf ! (b * G + h div n) ! ((h mod n) * dh + d) ! i"
proof -
  have G: "0 < G" and n: "0 < n"
    using assms(4) by (cases G; cases n; simp)+
  have g: "h div n < G"
    using assms(4) by (simp add: less_mult_imp_div_less mult.commute)
  have cd: "G * n * dh div G = n * dh"
    using G by (simp add: mult.assoc)
  have "Suc (h mod n) * dh \<le> n * dh"
    using n by (intro mult_le_mono1) (simp add: Suc_leI)
  then have di: "(h mod n) * dh + d < n * dh"
    using assms(5) by simp
  have "gf ! (b * G + h div n) ! ((h mod n) * dh + d) ! i =
          q ! b ! i ! (h div n * (n * dh) + ((h mod n) * dh + d))"
    using group_feats_nth [OF assms(1,2) g _ assms(3), of "(h mod n) * dh + d"] di
    by (simp add: cd)
  also have "h div n * (n * dh) + ((h mod n) * dh + d) = (h div n * n + h mod n) * dh + d"
    by (simp only: add_mult_distrib mult.assoc add.assoc)
  also have "\<dots> = h * dh + d"
    by (simp only: div_mult_mod_eq)
  finally show ?thesis
    using assms by (simp add: split_heads_nth)
qed



subsection \<open>Attention weights\<close>





lemma shape2_iff: "shape2 a b t \<longleftrightarrow> length t = a \<and> (\<forall>x\<in>set t. length x = b)"
  by (simp add: shape2_def list_all_iff)

lemma shape3_iff: "shape3 a b c t \<longleftrightarrow> length t = a \<and> (\<forall>x\<in>set t. shape2 b c x)"
  by (simp add: shape3_def list_all_iff)

lemma shape4_iff: "shape4 a b c d t \<longleftrightarrow> length t = a \<and> (\<forall>x\<in>set t. shape3 b c d x)"
  by (simp add: shape4_def list_all_iff)

lemma shape2_map2:
  assumes "length s = a" and "length t = a"
    and "\<And>x y. x \<in> set s \<Longrightarrow> y \<in> set t \<Longrightarrow> length (f x y) = b"
  shows "shape2 a b (map2 f s t)"
  using assms by (auto simp: shape2_iff dest: set_zip_leftD set_zip_rightD)

lemma shape3_map2:
  assumes "length s = a" and "length t = a"
    and "\<And>x y. x \<in> set s \<Longrightarrow> y \<in> set t \<Longrightarrow> shape2 b c (f x y)"
  shows "shape3 a b c (map2 f s t)"
  using assms by (auto simp: shape3_iff dest: set_zip_leftD set_zip_rightD)

lemma shape4_map2:
  assumes "length s = a" and "length t = a"
    and "\<And>x y. x \<in> set s \<Longrightarrow> y \<in> set t \<Longrightarrow> shape3 b c d (f x y)"
  shows "shape4 a b c d (map2 f s t)"
  using assms by (auto simp: shape4_iff dest: set_zip_leftD set_zip_rightD)

lemma shape4_similarity:
  assumes "shape3 a b c q" and "shape3 a b d k"
  shows "shape4 a b c d (similarity q k)"
  unfolding similarity_def
proof (rule shape4_map2)
  show "length q = a" "length k = a"
    using assms by (simp_all add: shape3_iff)
next
  fix qb kb assume "qb \<in> set q" and "kb \<in> set k"
  then have qb: "shape2 b c qb" and kb: "shape2 b d kb"
    using assms by (simp_all add: shape3_iff)
  show "shape3 b c d (map2 (\<lambda>qh kh. map (\<lambda>qi. map (\<lambda>kj. dot qi kj) kh) qh) qb kb)"
  proof (rule shape3_map2)
    show "length qb = b" "length kb = b"
      using qb kb by (simp_all add: shape2_iff)
  next
    fix qh kh assume "qh \<in> set qb" and "kh \<in> set kb"
    then have "length qh = c" and "length kh = d"
      using qb kb by (simp_all add: shape2_iff)
    then show "shape2 c d (map (\<lambda>qi. map (\<lambda>kj. dot qi kj) kh) qh)"
      by (simp add: shape2_iff)
  qed
qed

lemma shape4_add4:
  assumes "shape4 a b c d s" and "shape4 a b c d t"
  shows "shape4 a b c d (add4 s t)"
  unfolding add4_def
proof (rule shape4_map2)
  show "length s = a" "length t = a"
    using assms by (simp_all add: shape4_iff)
next
  fix sb tb assume "sb \<in> set s" and "tb \<in> set t"
  then have sb: "shape3 b c d sb" and tb: "shape3 b c d tb"
    using assms by (simp_all add: shape4_iff)
  show "shape3 b c d (map2 (map2 (map2 (+))) sb tb)"
  proof (rule shape3_map2)
    show "length sb = b" "length tb = b"
      using sb tb by (simp_all add: shape3_iff)
  next
    fix sh th assume "sh \<in> set sb" and "th \<in> set tb"
    then have sh: "shape2 c d sh" and th: "shape2 c d th"
      using sb tb by (simp_all add: shape3_iff)
    show "shape2 c d (map2 (map2 (+)) sh th)"
    proof (rule shape2_map2)
      show "length sh = c" "length th = c"
        using sh th by (simp_all add: shape2_iff)
    next
      fix sr tr assume "sr \<in> set sh" and "tr \<in> set th"
      then show "length (map2 (+) sr tr) = d"
        using sh th by (simp add: shape2_iff)
    qed
  qed
qed

lemma length_softmax [simp]: "length (softmax row) = length row"
  by (simp add: softmax_def Let_def)

lemma shape4_attention_weights:
  "shape4 a b c d sim \<Longrightarrow> shape4 a b c d (attention_weights sim)"
  by (auto simp: attention_weights_def shape4_iff shape3_iff shape2_iff)

lemma shape3_split_heads:
  assumes "length t = a" and "\<forall>tb\<in>set t. length tb = r"
  shows "shape3 a h r (split_heads h d t)"
  using assms by (auto simp: split_heads_def shape3_iff shape2_iff)


lemma length_concat_const:
  "\<forall>x\<in>set xs. length (g x) = d \<Longrightarrow> length (concat (map g xs)) = length xs * d"
  by (induction xs) simp_all

lemma cpb_forward_regroup:
  "cpb_forward p grid_q grid_kv =
     regroup_bias (nat (cpb_offset_groups p)) (nat (cpb_heads p div cpb_offset_groups p))
       (map (\<lambda>kv. map (\<lambda>qi. map (\<lambda>kj. mlp_forward (mlp p) [signed_log (qi - kj)]) kv) grid_q)
          grid_kv)"
  by (simp add: cpb_forward_def Let_def comp_def)

lemma shape4_cpb_forward:
  assumes G: "G = nat (cpb_offset_groups p)"
    and n: "n = nat (cpb_heads p div cpb_offset_groups p)"
    and pos: "0 < G" and len: "length grid_kv = B * G"
    and rows: "\<forall>row\<in>set grid_kv. length row = M"
  shows "shape4 B (G * n) (length grid_q) M (cpb_forward p grid_q grid_kv)"
proof -
  let ?bias = "map (\<lambda>kv. map (\<lambda>qi. map (\<lambda>kj. mlp_forward (mlp p) [signed_log (qi - kj)]) kv)
                 grid_q) grid_kv"
  have bias: "shape2 (length grid_q) M (?bias ! j)" if "j < B * G" for j
    using that rows len by (simp add: shape2_iff)
  have "shape3 (G * n) (length grid_q) M
          (concat (map (\<lambda>gi. map (\<lambda>oi. map (map (\<lambda>v. v ! oi)) (?bias ! (bi * G + gi))) [0..<n])
             [0..<G]))"
    if bi: "bi < B" for bi
  proof -
    have "bi * G + gi < B * G" if "gi < G" for gi
    proof -
      have "bi * G + gi < Suc bi * G"
        using that by simp
      also have "\<dots> \<le> B * G"
        using bi by (intro mult_le_mono1) simp
      finally show ?thesis .
    qed
    then have "shape2 (length grid_q) M (map (map (\<lambda>v. v ! oi)) (?bias ! (bi * G + gi)))"
      if "gi < G" for gi oi
      using bias [of "bi * G + gi"] that by (simp add: shape2_iff)
    then show ?thesis
      by (auto simp: shape3_iff length_concat_map_upt)
  qed
  then show ?thesis
    using pos by (simp add: cpb_forward_regroup G [symmetric] n [symmetric] regroup_bias_def
        shape4_iff len)
qed

lemma shape4_aggregate:
  assumes "shape4 a b c e attn" and "shape3 a b r v"
  shows "shape4 a b c d (aggregate d attn v)"
  unfolding aggregate_def
proof (rule shape4_map2)
  show "length attn = a" "length v = a"
    using assms by (simp_all add: shape4_iff shape3_iff)
next
  fix ab vb assume "ab \<in> set attn" and "vb \<in> set v"
  then have ab: "shape3 b c e ab" and vb: "shape2 b r vb"
    using assms by (simp_all add: shape4_iff shape3_iff)
  show "shape3 b c d (map2 (\<lambda>ah vh.
          map (\<lambda>arow. map (\<lambda>di. dot arow (map (\<lambda>vj. vj ! di) vh)) [0..<d]) ah) ab vb)"
  proof (rule shape3_map2)
    show "length ab = b" "length vb = b"
      using ab vb by (simp_all add: shape3_iff shape2_iff)
  next
    fix ah vh assume "ah \<in> set ab" and "vh \<in> set vb"
    then have "length ah = c"
      using ab by (simp add: shape3_iff shape2_iff)
    then show "shape2 c d (map (\<lambda>arow. map (\<lambda>di. dot arow (map (\<lambda>vj. vj ! di) vh)) [0..<d]) ah)"
      by (simp add: shape2_iff)
  qed
qed

lemma shape3_merge_heads:
  assumes "shape4 a b n d t"
  shows "shape3 a n (b * d) (merge_heads n t)"
proof -
  have "length (concat (map (\<lambda>th. th ! ni) tb)) = b * d" if "tb \<in> set t" and "ni < n" for tb ni
  proof -
    have tb: "shape3 b n d tb"
      using assms that(1) by (simp add: shape4_iff)
    then have "\<forall>th\<in>set tb. length (th ! ni) = d"
      using that(2) by (auto simp: shape3_iff shape2_iff)
    then have "length (concat (map (\<lambda>th. th ! ni) tb)) = length tb * d"
      by (rule length_concat_const)
    then show ?thesis
      using tb by (simp add: shape3_iff)
  qed
  then show ?thesis
    using assms by (simp add: merge_heads_def shape3_iff shape2_iff shape4_iff)
qed

lemma length_linear_vec: "length (linear_vec l v) = out_width l"
  by (simp add: linear_vec_def out_width_def split: option.split)

lemma shape3_linear:
  "shape2 a n x \<Longrightarrow> shape3 a n (out_width l) (map (map (linear_vec l)) x)"
  by (simp add: shape3_iff shape2_iff length_linear_vec)

lemma forward_attn_attnD:
  assumes "forward_attn m x = Inr (attn, v, vgrid)"
  obtains q gf offs kv where
    "linear_forward (to_q m) x = Inr q"
    "group_feats (nat (self_offset_groups m)) (nat (out_features (to_q m))) q = Inr gf"
    "to_offsets m gf = Inr offs"
    "vgrid = map (\<lambda>row. map2 (+) (arange (length (hd offs))) row) offs"
    "linear_forward (to_kv m)
       (ungroup_feats (length x) (nat (self_offset_groups m))
          (nat (out_features (to_q m)) div nat (self_offset_groups m)) (length (hd offs))
          (grid_sample_1d gf (normalize_grid2 vgrid))) = Inr kv"
    "v = split_heads (nat (self_heads m)) (nat (out_features (to_q m)) div nat (self_heads m))
           (map (map (\<lambda>row. drop ((length row + 1) div 2) row)) kv)"
    "attn = attention_weights (add4
       (similarity
          (split_heads (nat (self_heads m)) (nat (out_features (to_q m)) div nat (self_heads m))
             (map (map (map (\<lambda>e. e * self_scale m))) q))
          (split_heads (nat (self_heads m)) (nat (out_features (to_q m)) div nat (self_heads m))
             (map (map (\<lambda>row. take ((length row + 1) div 2) row)) kv)))
       (cpb_forward (rel_pos_bias m) (normalize_grid (arange (length (hd x))))
          (normalize_grid2 vgrid)))"
  using assms unfolding forward_attn_def Let_def bindE_Inr_iff by blast

lemma ungroup_feats_shape: "shape2 b n (ungroup_feats b g d n kv)"
  by (simp add: ungroup_feats_def shape2_iff)

lemma forward_attn_shapes:
  assumes init: "init c w = Inr m"
    and fw: "forward_attn m x = Inr (attn, v, vgrid)"
    and len: "\<forall>xb\<in>set x. length xb = L"
    and ne: "x \<noteq> []"
  shows "shape4 (length x) (nat (heads c)) L (nat (int L div downsample_factor c)) attn"
    and "shape3 (length x) (nat (heads c)) (nat (int L div downsample_factor c)) v"
    and "0 < int L div downsample_factor c"
proof -
  define og where "og = default (offset_groups c) (heads c)"
  define M where "M = nat (int L div downsample_factor c)"
  define B where "B = length x"
  define H where "H = nat (heads c)"
  define d where "d = nat (dim_head c * heads c) div H"
  note I = init_InrD [OF init, folded og_def]
  obtain q gf offs kv where q: "linear_forward (to_q m) x = Inr q"
    and gf: "group_feats (nat (self_offset_groups m)) (nat (out_features (to_q m))) q = Inr gf"
    and offs: "to_offsets m gf = Inr offs"
    and vgrid: "vgrid = map (\<lambda>row. map2 (+) (arange (length (hd offs))) row) offs"
    and kv: "linear_forward (to_kv m)
       (ungroup_feats (length x) (nat (self_offset_groups m))
          (nat (out_features (to_q m)) div nat (self_offset_groups m)) (length (hd offs))
          (grid_sample_1d gf (normalize_grid2 vgrid))) = Inr kv"
    and v: "v = split_heads (nat (self_heads m))
           (nat (out_features (to_q m)) div nat (self_heads m))
           (map (map (\<lambda>row. drop ((length row + 1) div 2) row)) kv)"
    and attn: "attn = attention_weights (add4
       (similarity
          (split_heads (nat (self_heads m)) (nat (out_features (to_q m)) div nat (self_heads m))
             (map (map (map (\<lambda>e. e * self_scale m))) q))
          (split_heads (nat (self_heads m)) (nat (out_features (to_q m)) div nat (self_heads m))
             (map (map (\<lambda>row. take ((length row + 1) div 2) row)) kv)))
       (cpb_forward (rel_pos_bias m) (normalize_grid (arange (length (hd x))))
          (normalize_grid2 vgrid)))"
    using fw by (rule forward_attn_attnD)
  note O = offsets_core [OF init q gf offs len ne, folded og_def]
  note C = forward_attn_core [OF init fw len ne, folded og_def]
  show Mpos: "0 < int L div downsample_factor c"
    by (rule O(5))
  have hd: "hd offs \<in> set offs"
    using O(4) by simp
  then have "int (length (hd offs)) = int L div downsample_factor c"
    using O(2) by blast
  then have hdM: "length (hd offs) = M"
    unfolding M_def by linarith
  have og: "0 < og"
    using group_feats_InrD(1) [OF gf] by (simp add: I)
  have heads: "nat og * nat (heads c div og) = H"
  proof (cases "0 \<le> heads c")
    case True
    have "og * (heads c div og) = heads c"
      using I(3) mult_div_mod_eq [of og "heads c"] by simp
    moreover have "0 \<le> heads c div og"
      using True og by (simp add: pos_imp_zdiv_nonneg_iff)
    ultimately show ?thesis
      using og by (simp add: H_def nat_mult_distrib [symmetric])
  next
    case False
    then have "heads c div og < 0"
      using og by (simp add: div_neg_pos_less0)
    then show ?thesis
      using False by (simp add: H_def)
  qed
  have qshape: "length q = B" "\<forall>qb\<in>set q. length qb = L"
    using linear_forward_InrD(1) [OF q] len by (auto simp: B_def)
  have kvshape: "length kv = B" "\<forall>kb\<in>set kv. length kb = M"
    using linear_forward_InrD(1) [OF kv] ungroup_feats_shape [where b = "length x" and n = M]
    by (auto simp: B_def hdM I shape2_iff)
  have xne: "hd x \<in> set x"
    using ne by simp
  have "shape3 B H L (split_heads H d (map (map (map (\<lambda>e. e * self_scale m))) q))"
    using qshape by (intro shape3_split_heads) auto
  moreover have "shape3 B H M (split_heads H d
      (map (map (\<lambda>row. take ((length row + 1) div 2) row)) kv))"
    using kvshape by (intro shape3_split_heads) auto
  ultimately have sim: "shape4 B H L M (similarity
      (split_heads H d (map (map (map (\<lambda>e. e * self_scale m))) q))
      (split_heads H d (map (map (\<lambda>row. take ((length row + 1) div 2) row)) kv)))"
    by (rule shape4_similarity)
  have "shape4 B (nat og * nat (heads c div og)) (length (normalize_grid (arange (length (hd x))))) M
          (cpb_forward (rel_pos_bias m) (normalize_grid (arange (length (hd x))))
             (normalize_grid2 vgrid))"
  proof (rule shape4_cpb_forward)
    show "length (normalize_grid2 vgrid) = B * nat og"
      using C(4) by (simp add: normalize_grid2_def B_def)
    show "\<forall>row\<in>set (normalize_grid2 vgrid). length row = M"
      using C(3) by (auto simp: normalize_grid2_def M_def)
  qed (use og in \<open>simp_all add: I cpb_init_def\<close>)
  then have bias: "shape4 B H L M
          (cpb_forward (rel_pos_bias m) (normalize_grid (arange (length (hd x))))
             (normalize_grid2 vgrid))"
    using len xne by (simp add: heads arange_def)
  show "shape4 (length x) (nat (heads c)) L (nat (int L div downsample_factor c)) attn"
    using shape4_attention_weights [OF shape4_add4 [OF sim bias]]
    by (simp add: attn I B_def H_def M_def d_def)
  show "shape3 (length x) (nat (heads c)) (nat (int L div downsample_factor c)) v"
    using kvshape
    by (simp add: v I B_def [symmetric] H_def [symmetric] M_def [symmetric])
      (intro shape3_split_heads, auto)
qed




subsection \<open>The forward call and the shape of its input\<close>

text \<open>Where the shapes fit, the forward call returns, and its results have the
  shapes the module is meant to give: the output that of the input, the deformed grid
  one row for every batch element and group.\<close>

lemma forward_returns:
  assumes init: "init c w = Inr m"
    and shape: "\<forall>xb\<in>set x. length xb = L \<and> (\<forall>u\<in>set xb. int (length u) = dim c)"
    and ne: "x \<noteq> []"
    and dim: "dim c = dim_head c * heads c"
    and og: "0 < default (offset_groups c) (heads c)"
    and L: "int L = dim_head c * heads c div default (offset_groups c) (heads c)"
    and heads: "0 < heads c"
    and s: "0 < downsample_factor c" "downsample_factor c \<le> offset_kernel_size c"
      "downsample_factor c \<le> int L"
    and wf: "length (to_out_weight w) = nat (dim c)" "length (to_out_bias w) = nat (dim c)"
  shows "\<exists>out vgrid. forward m x True = Inr (out, Some vgrid) \<and>
           forward m x False = Inr (out, None) \<and>
           shape3 (length x) L (nat (dim c)) out \<and>
           shape2 (length x * nat (default (offset_groups c) (heads c)))
             (nat (int L div downsample_factor c)) vgrid"
proof -
  note I = init_InrD [OF init]
  have len: "\<forall>xb\<in>set x. length xb = L"
    using shape by simp
  obtain attn v vgrid where fw: "forward_attn m x = Inr (attn, v, vgrid)"
    using forward_attn_InrI [OF init shape dim og L s] by blast
  note S = forward_attn_shapes [OF init fw len ne]
  note C = forward_attn_core [OF init fw len ne]
  define H where "H = nat (heads c)"
  define d where "d = nat (dim_head c * heads c) div H"
  have inner: "0 < dim_head c * heads c"
    using L s by (smt (verit) og div_nonpos_pos_le0)
  then have dh: "0 < dim_head c"
    using heads by (simp add: zero_less_mult_iff)
  have "nat (dim_head c * heads c) = nat (dim_head c) * H"
    using dh by (simp add: H_def nat_mult_distrib)
  then have Hd: "H * d = nat (dim_head c * heads c)"
    using heads by (simp add: d_def H_def)
  let ?merged = "merge_heads L (aggregate d attn v)"
  have merged: "shape3 (length x) L (H * d) ?merged"
    using shape4_aggregate [OF S(1,2), of d] by (intro shape3_merge_heads) (simp add: H_def)
  have hdx: "length (hd x) = L"
    using len ne by simp
  have lin: "linear_forward (to_out m) ?merged = Inr (map (map (linear_vec (to_out m))) ?merged)"
  proof (rule linear_forward_InrI, intro ballI)
    fix xb u assume "xb \<in> set ?merged" and "u \<in> set xb"
    then have "length u = H * d"
      using merged by (auto simp: shape3_iff shape2_iff)
    then show "int (length u) = in_features (to_out m)"
      using inner by (simp add: Hd I)
  qed
  have "shape2 (length x) L ?merged"
    using merged by (auto simp: shape3_iff shape2_iff)
  then have "shape3 (length x) L (out_width (to_out m)) (map (map (linear_vec (to_out m))) ?merged)"
    by (rule shape3_linear)
  moreover have "out_width (to_out m) = nat (dim c)"
    by (simp add: out_width_def I wf)
  moreover have "shape2 (length x * nat (default (offset_groups c) (heads c)))
             (nat (int L div downsample_factor c)) vgrid"
    unfolding shape2_iff
  proof (intro conjI ballI)
    fix row assume "row \<in> set vgrid"
    then have "int (length row) = int L div downsample_factor c"
      using C(3) by blast
    then show "length row = nat (int L div downsample_factor c)"
      by linarith
  qed (rule C(4))
  moreover have "forward m x rv =
      Inr (map (map (linear_vec (to_out m))) ?merged, if rv then Some vgrid else None)" for rv
    by (simp add: forward_def fw Let_def hdx I(5,10) H_def [symmetric] d_def [symmetric] lin)
  ultimately show ?thesis
    by simp
qed

lemma example_forward:
  "\<exists>out vgrid. forward example_module example_input True = Inr (out, Some vgrid) \<and>
     forward example_module example_input False = Inr (out, None) \<and>
     shape3 1 4 4 out \<and> shape2 1 1 vgrid"
  using forward_returns [OF example_init, of example_input 4]
  by (simp add: example_config_def example_params_def example_input_def default_def)

text \<open>
  Claim C1 describes the module as it is meant, and this code does not do it: the
  forward call raises unless the width \<open>dim\<close> of the input is the inner width
  \<open>heads * dim_head\<close> and the length of the sequence is
  \<open>(heads * dim_head) div offset_groups\<close>. The resampled queries, of the inner width, are
  given to \<^verbatim>\<open>to_kv\<close>, a linear layer made for inputs of width \<open>dim\<close>; and
  \<^verbatim>\<open>to_offsets\<close> starts by transposing a tensor that \<^verbatim>\<open>forward\<close> has already brought
  to the order (batch, channels, length), so its depthwise convolution, made for
  \<open>(heads * dim_head) div offset_groups\<close> channels, is given one channel for every
  position of the sequence. The instance below is the end-to-end scenario of the
  specification, on which the call raises whatever the values of the parameters.
  (Sequences shorter than \<open>downsample_factor\<close> are rejected as well, by the
  convolution, whose kernel is then longer than the padded input.)
\<close>

theorem forward_rejects:
  assumes "init c w = Inr m" and "x \<noteq> []" and "\<forall>xb\<in>set x. length xb = L"
    and "dim c \<noteq> dim_head c * heads c \<or>
         int L \<noteq> dim_head c * heads c div default (offset_groups c) (heads c)"
  shows "forward m x return_vgrid = Inl RuntimeError"
proof (cases "forward m x return_vgrid")
  case (Inl e)
  then show ?thesis
    using forward_error by simp
next
  case (Inr r)
  then obtain attn v vgrid where "forward_attn m x = Inr (attn, v, vgrid)"
    by (rule forward_InrD)
  from forward_attn_core(1,2) [OF assms(1) this assms(3,2)] assms(4) show ?thesis
    by simp
qed

theorem forward_rejects_witness:
  "\<forall>w. \<exists>m. init scenario_config w = Inr m \<and>
     forward m scenario_input False = Inl RuntimeError \<and>
     forward m scenario_input True = Inl RuntimeError"
proof
  fix w
  obtain m where m: "init scenario_config w = Inr m"
    by (simp add: init_def check_config_def divisible_by_def default_def scenario_config_def
        Let_def)
  have "forward m scenario_input rv = Inl RuntimeError" for rv
    using m
  proof (rule forward_rejects [where L = 8])
    show "scenario_input \<noteq> []"
      by (simp add: scenario_input_def)
    show "\<forall>xb\<in>set scenario_input. length xb = 8"
      by (simp add: scenario_input_def)
    show "dim scenario_config \<noteq> dim_head scenario_config * heads scenario_config \<or>
          int 8 \<noteq> dim_head scenario_config * heads scenario_config
                    div default (offset_groups scenario_config) (heads scenario_config)"
      by (simp add: scenario_config_def)
  qed
  then show "\<exists>m. init scenario_config w = Inr m \<and>
     forward m scenario_input False = Inl RuntimeError \<and>
     forward m scenario_input True = Inl RuntimeError"
    using m by simp
qed

subsection \<open>Sampling at and beyond the boundary\<close>

lemma pixel_column:
  assumes "row \<noteq> []" and "w \<noteq> 0"
  shows "pixel (map (\<lambda>f. [f]) row) h w = 0"
  using assms by (cases row) (auto simp: pixel_def within_bounds_2d_def)


lemma grid_sample_1d_nth:
  assumes "b < length feats" and "b < length grid" and "c < length (feats ! b)"
    and "j < length (grid ! b)"
  shows "grid_sample_1d feats grid ! b ! c ! j =
           bilinear_zeros (map (\<lambda>f. [f]) (feats ! b ! c)) (grid ! b ! j) 0"
  using assms by (simp add: grid_sample_1d_def grid_sample_def Let_def)

lemma bilinear_zeros_column:
  assumes "row \<noteq> []"
  shows "bilinear_zeros (map (\<lambda>f. [f]) row) g y =
           max 0 (1 - \<bar>g\<bar> / 2) * bilinear_zeros (map (\<lambda>f. [f]) row) 0 y"
proof -
  let ?img = "map (\<lambda>f. [f]) row"
  define t where "t = g / 2"
  define fx where "fx = \<lfloor>t\<rfloor>"
  define iy where "iy = unnormalize y (length ?img)"
  define u where "u = real_of_int (\<lfloor>iy\<rfloor> + 1) - iy"
  define v where "v = iy - real_of_int \<lfloor>iy\<rfloor>"
  define p where "p = pixel ?img \<lfloor>iy\<rfloor> 0"
  define p' where "p' = pixel ?img (\<lfloor>iy\<rfloor> + 1) 0"
  have w: "length (hd ?img) = 1"
    using assms by (cases row) simp_all
  have ix: "unnormalize g (length (hd ?img)) = t" "unnormalize 0 (length (hd ?img)) = 0"
    by (simp_all add: w unnormalize_def t_def)
  have off: "pixel ?img h w = 0" if "w \<noteq> 0" for h w
    using assms that by (rule pixel_column)
  have at0: "bilinear_zeros ?img 0 y = p * u + p' * v"
    unfolding bilinear_zeros_def Let_def ix iy_def [symmetric]
    by (simp add: off p_def p'_def u_def v_def)
  have fl: "of_int fx \<le> t" "t < of_int fx + 1"
    unfolding fx_def by linarith+
  have val: "bilinear_zeros ?img g y =
      pixel ?img \<lfloor>iy\<rfloor> fx * ((of_int (fx + 1) - t) * u)
      + pixel ?img \<lfloor>iy\<rfloor> (fx + 1) * ((t - of_int fx) * u)
      + pixel ?img (\<lfloor>iy\<rfloor> + 1) fx * ((of_int (fx + 1) - t) * v)
      + pixel ?img (\<lfloor>iy\<rfloor> + 1) (fx + 1) * ((t - of_int fx) * v)"
    unfolding bilinear_zeros_def Let_def ix iy_def [symmetric] fx_def [symmetric] u_def v_def ..
  have scale: "max 0 (1 - \<bar>g\<bar> / 2) = max 0 (1 - \<bar>t\<bar>)"
    by (simp add: t_def)
  consider "fx = 0" | "fx = - 1" | "fx \<noteq> 0" "fx + 1 \<noteq> 0"
    by linarith
  then show ?thesis
  proof cases
    case 1
    then have "max 0 (1 - \<bar>t\<bar>) = 1 - t"
      using fl by simp
    moreover have "bilinear_zeros ?img g y = (1 - t) * (p * u + p' * v)"
      unfolding val using 1 by (simp add: off p_def p'_def algebra_simps)
    ultimately show ?thesis
      by (simp add: at0 scale)
  next
    case 2
    then have "max 0 (1 - \<bar>t\<bar>) = 1 + t"
      using fl by simp
    moreover have "bilinear_zeros ?img g y = (1 + t) * (p * u + p' * v)"
      unfolding val using 2 by (simp add: off p_def p'_def algebra_simps)
    ultimately show ?thesis
      by (simp add: at0 scale)
  next
    case 3
    then have "fx \<le> - 2 \<or> 1 \<le> fx"
      by linarith
    then have "max 0 (1 - \<bar>t\<bar>) = 0"
      using fl by auto
    moreover have "bilinear_zeros ?img g y = 0"
      unfolding val using 3 by (simp add: off)
    ultimately show ?thesis
      by (simp add: scale)
  qed
qed


text \<open>What the sampler returns, whatever the sampling position \<open>g\<close>: the sample at the
  centre of the feature row, scaled by \<open>max 0 (1 - |g| / 2)\<close>. The position is the entry
  \<open>0\<close> of the padded grid point, its \<open>x\<close> coordinate, and runs along the axis of size
  one that \<^verbatim>\<open>grid_sample_1d\<close> appends to the features; along the sequence the
  coordinate is the padded zero.\<close>

lemma grid_sample_1d_scales_centre:
  assumes "b < length feats" and "b < length grid" and "c < length (feats ! b)"
    and "j < length (grid ! b)" and "feats ! b ! c \<noteq> []"
  shows "grid_sample_1d feats grid ! b ! c ! j =
           max 0 (1 - \<bar>grid ! b ! j\<bar> / 2) * bilinear_zeros (map (\<lambda>f. [f]) (feats ! b ! c)) 0 0"
  using assms by (simp add: grid_sample_1d_nth bilinear_zeros_column [of _ "grid ! b ! j"])




end
